theory Spec2Isabelle
  imports Complex_Main
begin

section \<open>JavaScript values\<close>

text \<open>
  The server (\<^verbatim>\<open>server.js\<close>) is dynamically typed: request bodies are parsed JSON, and
  the handlers read properties of whatever arrives. Values are modelled as they are after
  \<^verbatim>\<open>JSON.parse\<close>, with \<^verbatim>\<open>undefined\<close> added for absent properties. An object is the
  list of its own properties, a name being looked up from the front. A number is carried
  by its exact rational value; rounding to a double is not modelled. Strings are byte
  strings, exact for ASCII text.
\<close>

datatype js_number = NaN | PosInfinity | NegInfinity | Fin rat

datatype jsval =
    JUndefined
  | JNull
  | JBool bool
  | JNum js_number
  | JStr string
  | JArr "jsval list"
  | JObj "(string \<times> jsval) list"

datatype js_error = TypeError | RangeError | IOError

text \<open>A handler either sends a response (status and JSON body) or throws.\<close>

datatype outcome = Responded nat jsval | Threw js_error

definition and_then :: "js_error + 'a \<Rightarrow> ('a \<Rightarrow> js_error + 'b) \<Rightarrow> js_error + 'b" where
  "and_then r f = (case r of Inl e \<Rightarrow> Inl e | Inr v \<Rightarrow> f v)"

text \<open>Truthiness, as the conditional operator \<^verbatim>\<open>c ? a : b\<close> and \<^verbatim>\<open>a || b\<close> test it.\<close>

fun truthy :: "jsval \<Rightarrow> bool" where
  "truthy JUndefined = False"
| "truthy JNull = False"
| "truthy (JBool b) = b"
| "truthy (JNum n) = (case n of NaN \<Rightarrow> False | Fin q \<Rightarrow> q \<noteq> 0 | _ \<Rightarrow> True)"
| "truthy (JStr s) = (s \<noteq> [])"
| "truthy (JArr xs) = True"
| "truthy (JObj fs) = True"

text \<open>
  \<^verbatim>\<open>v.k\<close> for the property names the handlers read (\<^verbatim>\<open>events\<close>, \<^verbatim>\<open>device_id\<close>,
  \<^verbatim>\<open>token_or_pin\<close>, \<^verbatim>\<open>extras\<close>, \<^verbatim>\<open>entered_pin\<close>, \<^verbatim>\<open>method\<close>): reading a property
  of \<^verbatim>\<open>undefined\<close> or \<^verbatim>\<open>null\<close> throws a TypeError; an object yields its own property or
  \<^verbatim>\<open>undefined\<close>; booleans, numbers, strings and arrays have no property of these names.
\<close>

fun member :: "jsval \<Rightarrow> string \<Rightarrow> js_error + jsval" where
  "member JUndefined k = Inl TypeError"
| "member JNull k = Inl TypeError"
| "member (JObj fs) k = Inr (case map_of fs k of None \<Rightarrow> JUndefined | Some v \<Rightarrow> v)"
| "member v k = Inr JUndefined"

text \<open>\<^verbatim>\<open>v[0]\<close>: the first element of an array, the first character of a string, the
  property \<^verbatim>\<open>"0"\<close> of an object; \<^verbatim>\<open>undefined\<close> when there is none.\<close>

fun element0 :: "jsval \<Rightarrow> js_error + jsval" where
  "element0 JUndefined = Inl TypeError"
| "element0 JNull = Inl TypeError"
| "element0 (JArr xs) = Inr (case xs of [] \<Rightarrow> JUndefined | x # _ \<Rightarrow> x)"
| "element0 (JStr s) = Inr (case s of [] \<Rightarrow> JUndefined | c # _ \<Rightarrow> JStr [c])"
| "element0 (JObj fs) = member (JObj fs) ''0''"
| "element0 v = Inr JUndefined"

section \<open>Numbers as text, dates\<close>

definition digit_char :: "nat \<Rightarrow> char" where
  "digit_char d = ''0123456789'' ! d"

function digits_of :: "nat \<Rightarrow> string" where
  "digits_of n = (if n < 10 then [digit_char n] else digits_of (n div 10) @ [digit_char (n mod 10)])"
  by pat_completeness auto
termination
  by (relation "measure id") auto

declare digits_of.simps [simp del]

text \<open>The text of an integer in a template literal (plain decimal digits below \<open>10\<^sup>2\<^sup>1\<close>,
  which every clock reading is).\<close>

definition int_to_string :: "int \<Rightarrow> string" where
  "int_to_string i = (if i < 0 then CHR ''-'' # digits_of (nat (- i)) else digits_of (nat i))"

text \<open>Zero-padding to a width, as the date rendering pads its fields.\<close>

definition pad :: "nat \<Rightarrow> nat \<Rightarrow> string" where
  "pad w n = replicate (w - length (digits_of n)) CHR ''0'' @ digits_of n"

text \<open>The civil date (year, month, day) of a day number counted from 1970-01-01, in the
  proleptic Gregorian calendar: the day is placed in its 400-year era (\<open>doe\<close>, day of
  era; \<open>yoe\<close>, year of era), then in a year that starts in March (\<open>doy\<close>, day of
  year; \<open>mp\<close>, month counted from March).\<close>

definition civil_of_month :: "int \<Rightarrow> int \<Rightarrow> int \<Rightarrow> int \<Rightarrow> int \<times> int \<times> int" where
  "civil_of_month era yoe doy mp =
     (yoe + era * 400 + (if mp < 10 then 0 else 1),
      (if mp < 10 then mp + 3 else mp - 9),
      doy - (153 * mp + 2) div 5 + 1)"

definition civil_of_doy :: "int \<Rightarrow> int \<Rightarrow> int \<Rightarrow> int \<times> int \<times> int" where
  "civil_of_doy era yoe doy = civil_of_month era yoe doy ((5 * doy + 2) div 153)"

definition civil_of_yoe :: "int \<Rightarrow> int \<Rightarrow> int \<Rightarrow> int \<times> int \<times> int" where
  "civil_of_yoe era doe yoe = civil_of_doy era yoe (doe - (365 * yoe + yoe div 4 - yoe div 100))"

definition civil_of_doe :: "int \<Rightarrow> int \<Rightarrow> int \<times> int \<times> int" where
  "civil_of_doe era doe =
     civil_of_yoe era doe ((doe - doe div 1460 + doe div 36524 - doe div 146096) div 365)"

definition civil_from_days :: "int \<Rightarrow> int \<times> int \<times> int" where
  "civil_from_days z = civil_of_doe ((z + 719468) div 146097) ((z + 719468) mod 146097)"

text \<open>A Date object holds a time value: milliseconds since the epoch, or none (Invalid Date).\<close>

datatype js_date = Invalid_Date | Date int

text \<open>\<^verbatim>\<open>Date.prototype.toISOString\<close>: \<^verbatim>\<open>YYYY-MM-DDTHH:mm:ss.sssZ\<close> in UTC (the year with a
  sign and six digits outside 0..9999); a RangeError on an invalid date.\<close>

definition iso_year :: "int \<Rightarrow> string" where
  "iso_year y =
     (if 0 \<le> y \<and> y \<le> 9999 then pad 4 (nat y)
      else (if y < 0 then CHR ''-'' else CHR ''+'') # pad 6 (nat \<bar>y\<bar>))"

fun iso_date :: "int \<times> int \<times> int \<Rightarrow> string" where
  "iso_date (y, m, d) = iso_year y @ ''-'' @ pad 2 (nat m) @ ''-'' @ pad 2 (nat d)"

definition iso_time :: "nat \<Rightarrow> string" where
  "iso_time r =
     pad 2 (r div 3600000) @ '':'' @ pad 2 (r div 60000 mod 60) @ '':''
       @ pad 2 (r div 1000 mod 60) @ ''.'' @ pad 3 (r mod 1000)"

definition iso_of_ms :: "int \<Rightarrow> string" where
  "iso_of_ms t =
     iso_date (civil_from_days (t div 86400000)) @ ''T'' @ iso_time (nat (t mod 86400000)) @ ''Z''"

fun toISOString :: "js_date \<Rightarrow> js_error + string" where
  "toISOString Invalid_Date = Inl RangeError"
| "toISOString (Date t) = Inr (iso_of_ms t)"

section \<open>The attendance workbook\<close>

text \<open>
  Modelled from the spec: the spreadsheet library (ExcelJS: \<^verbatim>\<open>Workbook\<close>,
  \<^verbatim>\<open>addWorksheet\<close>, \<^verbatim>\<open>columns\<close>, \<^verbatim>\<open>addRow\<close>, \<^verbatim>\<open>getSheetValues\<close>,
  \<^verbatim>\<open>xlsx.writeFile\<close>, \<^verbatim>\<open>xlsx.readFile\<close>) is a dependency whose code is not among the
  sources. It is taken as the spec describes the Ledger Store: an ordered table with a
  column schema and a header row, to which \<^verbatim>\<open>addRow\<close> appends one row holding the given
  object's values under the column keys, which \<^verbatim>\<open>writeFile\<close> persists in full, and which
  \<^verbatim>\<open>readFile\<close> restores as it was persisted, header schema included. A cell holds the
  value it was given; an absent value is an empty cell, read back as \<^verbatim>\<open>undefined\<close>.
\<close>

record column =
  header :: string
  key :: string
  width :: nat

type_synonym row = "jsval list"

record worksheet =
  columns :: "column list"
  rows :: "row list"

type_synonym workbook = "string \<rightharpoonup> worksheet"

text \<open>Assigning \<^verbatim>\<open>sheet.columns\<close> sets the schema and writes the headers as row 1.\<close>

definition set_columns :: "column list \<Rightarrow> worksheet" where
  "set_columns cs = \<lparr>columns = cs, rows = [map (\<lambda>c. JStr (header c)) cs]\<rparr>"

definition lookup :: "(string \<times> jsval) list \<Rightarrow> string \<Rightarrow> jsval" where
  "lookup obj k = (case map_of obj k of None \<Rightarrow> JUndefined | Some v \<Rightarrow> v)"

definition addRow :: "worksheet \<Rightarrow> (string \<times> jsval) list \<Rightarrow> worksheet" where
  "addRow sheet obj = sheet\<lparr>rows := rows sheet @ [map (\<lambda>c. lookup obj (key c)) (columns sheet)]\<rparr>"

text \<open>\<^verbatim>\<open>getSheetValues()\<close>: the rows by row number; slot 0 is unused, row 1 is the header
  row. \<^verbatim>\<open>r[i]\<close> is the cell of column \<open>i\<close>, counted from 1.\<close>

definition getSheetValues :: "worksheet \<Rightarrow> row list" where
  "getSheetValues sheet = [] # rows sheet"

definition cell :: "row \<Rightarrow> nat \<Rightarrow> jsval" where
  "cell r i = (if 0 < i \<and> i \<le> length r then r ! (i - 1) else JUndefined)"

section \<open>Server state and environment\<close>

text \<open>
  The state a request can see or change: the workbook in memory (\<^verbatim>\<open>workbook\<close>), the
  file \<^verbatim>\<open>attendance.xlsx\<close> (absent, or the workbook last written), and the directory
  \<^verbatim>\<open>voices\<close> (absent, or its files in enumeration order). Each handler runs to completion on
  the state it is given; interleaving of handlers is not modelled.
\<close>

type_synonym blob = "nat list"

record server =
  workbook :: workbook
  excelFile :: "workbook option"
  voices :: "(string \<times> blob) list option"

text \<open>What a handler reads from outside: the clock (milliseconds since the epoch) and
  whether the file system carries out its reads and writes.\<close>

record env =
  now :: int
  disk_ok :: bool

text \<open>\<^verbatim>\<open>process.env.DEVICE_API_KEY\<close>: a string, or \<^verbatim>\<open>undefined\<close> when the variable is not
  set.\<close>

record config =
  DEVICE_API_KEY :: "string option"

section \<open>Excel setup\<close>

definition attendance_columns :: "column list" where
  "attendance_columns =
     [\<lparr>header = ''Timestamp'', key = ''timestamp'', width = 25\<rparr>,
      \<lparr>header = ''Device ID'', key = ''device_id'', width = 20\<rparr>,
      \<lparr>header = ''QR Token'', key = ''token'', width = 20\<rparr>,
      \<lparr>header = ''PIN'', key = ''pin'', width = 10\<rparr>,
      \<lparr>header = ''Method'', key = ''method'', width = 15\<rparr>]"

text \<open>\<^verbatim>\<open>initExcel\<close>: load the file when it exists; otherwise start a new workbook with
  the sheet \<^verbatim>\<open>Attendance\<close> and write it. The second component is the error of a failed
  read or write, if any.\<close>

definition initExcel :: "env \<Rightarrow> server \<Rightarrow> server \<times> js_error option" where
  "initExcel e s =
     (case excelFile s of
        Some wb \<Rightarrow> if disk_ok e then (s\<lparr>workbook := wb\<rparr>, None) else (s, Some IOError)
      | None \<Rightarrow>
          if disk_ok e
          then (s\<lparr>workbook := [''Attendance'' \<mapsto> set_columns attendance_columns],
                   excelFile := Some [''Attendance'' \<mapsto> set_columns attendance_columns]\<rparr>, None)
          else (s\<lparr>workbook := [''Attendance'' \<mapsto> set_columns attendance_columns]\<rparr>,
                Some IOError))"

text \<open>A process start: the module creates an empty workbook and calls \<^verbatim>\<open>initExcel\<close>; only
  the files survive from the previous run.\<close>

definition restart :: "env \<Rightarrow> server \<Rightarrow> server \<times> js_error option" where
  "restart e s = initExcel e (s\<lparr>workbook := Map.empty\<rparr>)"

section \<open>Attendance device API\<close>

record device_request =
  x_device_key :: "string option"
  body :: jsval

text \<open>The object literal handed to \<^verbatim>\<open>addRow\<close>; its property values are evaluated in
  order, and reading a property of \<^verbatim>\<open>undefined\<close> or \<^verbatim>\<open>null\<close> throws.\<close>

definition event_pin :: "jsval \<Rightarrow> js_error + jsval" where
  "event_pin event =
     and_then (member event ''extras'') (\<lambda>extras.
       if truthy extras then member extras ''entered_pin'' else Inr (JStr []))"

definition new_row :: "env \<Rightarrow> jsval \<Rightarrow> jsval \<Rightarrow> js_error + (string \<times> jsval) list" where
  "new_row e req_body event =
     and_then (member req_body ''device_id'') (\<lambda>device_id.
     and_then (member event ''token_or_pin'') (\<lambda>token.
     and_then (event_pin event) (\<lambda>pin.
     and_then (member event ''method'') (\<lambda>m.
       Inr [(''timestamp'', JStr (iso_of_ms (now e))),
            (''device_id'', device_id),
            (''token'', token),
            (''pin'', pin),
            (''method'', m)]))))"

definition saved_body :: jsval where
  "saved_body =
     JObj [(''results'', JArr [JObj [(''ok'', JBool True),
                                     (''message'', JStr ''Attendance saved to Excel'')]])]"

text \<open>\<^verbatim>\<open>sheet.addRow(...)\<close>, then \<^verbatim>\<open>await workbook.xlsx.writeFile(excelFile)\<close>: the row
  is in memory before the write, and stays there when the write fails.\<close>

definition append_and_write :: "env \<Rightarrow> worksheet \<Rightarrow> (string \<times> jsval) list \<Rightarrow> server \<Rightarrow> server \<times> outcome" where
  "append_and_write e sheet obj s =
     (if disk_ok e
      then (s\<lparr>workbook := (workbook s)(''Attendance'' \<mapsto> addRow sheet obj),
               excelFile := Some ((workbook s)(''Attendance'' \<mapsto> addRow sheet obj))\<rparr>,
            Responded 200 saved_body)
      else (s\<lparr>workbook := (workbook s)(''Attendance'' \<mapsto> addRow sheet obj)\<rparr>, Threw IOError))"

text \<open>\<^verbatim>\<open>POST /api/device/event\<close>.\<close>

definition device_event :: "config \<Rightarrow> env \<Rightarrow> device_request \<Rightarrow> server \<Rightarrow> server \<times> outcome" where
  "device_event cfg e req s =
     (if x_device_key req \<noteq> DEVICE_API_KEY cfg
      then (s, Responded 401 (JObj [(''error'', JStr ''invalid key'')]))
      else
        case and_then (member (body req) ''events'') element0 of
          Inl err \<Rightarrow> (s, Threw err)
        | Inr event \<Rightarrow>
            (case workbook s ''Attendance'' of
               None \<Rightarrow> (s, Threw TypeError)
             | Some sheet \<Rightarrow>
                 (case new_row e (body req) event of
                    Inl err \<Rightarrow> (s, Threw err)
                  | Inr obj \<Rightarrow> append_and_write e sheet obj s)))"

section \<open>Attendance dashboard\<close>

record attendance_record =
  timestamp :: jsval
  device_id :: jsval
  token :: jsval
  pin :: jsval
  method' :: jsval

definition row_record :: "row \<Rightarrow> attendance_record" where
  "row_record r =
     \<lparr>timestamp = cell r 1, device_id = cell r 2, token = cell r 3, pin = cell r 4,
      method' = cell r 5\<rparr>"

text \<open>\<^verbatim>\<open>GET /api/attendance\<close>: every row after the header row, as a record.\<close>

definition attendance :: "server \<Rightarrow> js_error + attendance_record list" where
  "attendance s =
     (case workbook s ''Attendance'' of
        None \<Rightarrow> Inl TypeError
      | Some sheet \<Rightarrow> Inr (map row_record (drop 2 (getSheetValues sheet))))"

text \<open>A series of ingest requests handled one after the other, each with the clock and
  file-system condition of its moment.\<close>

fun ingest_all :: "config \<Rightarrow> (env \<times> device_request) list \<Rightarrow> server \<Rightarrow> server \<times> outcome list" where
  "ingest_all cfg [] s = (s, [])"
| "ingest_all cfg ((e, req) # rest) s =
     (case device_event cfg e req s of
        (s1, out) \<Rightarrow> (case ingest_all cfg rest s1 of (s2, outs) \<Rightarrow> (s2, out # outs)))"

text \<open>The Ledger as \<^verbatim>\<open>initExcel\<close> sets it up and the ingest handler keeps it: the sheet
  \<^verbatim>\<open>Attendance\<close> exists, its columns carry the five keys in order, and row 1 is there.\<close>

definition ledger_ready :: "server \<Rightarrow> bool" where
  "ledger_ready s =
     (case workbook s ''Attendance'' of
        None \<Rightarrow> False
      | Some sheet \<Rightarrow>
          map key (columns sheet) = [''timestamp'', ''device_id'', ''token'', ''pin'', ''method'']
          \<and> rows sheet \<noteq> [])"

section \<open>Strings\<close>

text \<open>\<^verbatim>\<open>s.endsWith(t)\<close>.\<close>

definition endsWith :: "string \<Rightarrow> string \<Rightarrow> bool" where
  "endsWith s t = (length t \<le> length s \<and> drop (length s - length t) s = t)"

text \<open>\<^verbatim>\<open>s.replace(pat, rep)\<close> with a string pattern: the first occurrence only (\<open>rep\<close>
  without \<^verbatim>\<open>$\<close> patterns; the source replaces by the empty string).\<close>

fun js_replace :: "string \<Rightarrow> string \<Rightarrow> string \<Rightarrow> string" where
  "js_replace pat rep [] = (if pat = [] then rep else [])"
| "js_replace pat rep (c # cs) =
     (if take (length pat) (c # cs) = pat then rep @ drop (length pat) (c # cs)
      else c # js_replace pat rep cs)"

text \<open>\<^verbatim>\<open>s.split(sep)\<close> for a one-character separator: every occurrence splits, and the
  empty string gives one empty segment.\<close>

fun js_split :: "char \<Rightarrow> string \<Rightarrow> string list" where
  "js_split sep [] = [[]]"
| "js_split sep (c # cs) =
     (if c = sep then [] # js_split sep cs
      else (case js_split sep cs of [] \<Rightarrow> [[c]] | p # ps \<Rightarrow> (c # p) # ps))"

text \<open>\<^verbatim>\<open>parts[i]\<close>: \<^verbatim>\<open>undefined\<close> past the end.\<close>

definition part :: "string list \<Rightarrow> nat \<Rightarrow> string option" where
  "part ps i = (if i < length ps then Some (ps ! i) else None)"

text \<open>\<^verbatim>\<open>v || d\<close> for a string or \<^verbatim>\<open>undefined\<close>: \<open>d\<close> when \<open>v\<close> is \<^verbatim>\<open>undefined\<close> or
  empty.\<close>

definition or_default :: "string option \<Rightarrow> string \<Rightarrow> string" where
  "or_default v d = (case v of None \<Rightarrow> d | Some s \<Rightarrow> if s = [] then d else s)"

section \<open>\<^verbatim>\<open>Number\<close> of a string, \<^verbatim>\<open>new Date\<close> of a number\<close>

text \<open>
  \<^verbatim>\<open>Number(s)\<close> follows the StringToNumber grammar: white space is trimmed (the ASCII
  white space here); the empty string is 0; then a binary, octal or hexadecimal integer
  (\<^verbatim>\<open>0b\<close>, \<^verbatim>\<open>0o\<close>, \<^verbatim>\<open>0x\<close>, unsigned), or an optionally signed \<^verbatim>\<open>Infinity\<close> or
  decimal literal (digits, an optional fraction, an optional exponent); anything else is
  \<^verbatim>\<open>NaN\<close>.
\<close>

definition is_space :: "char \<Rightarrow> bool" where
  "is_space c = (c \<in> set [CHR '' '', CHR 0x09, CHR 0x0A, CHR 0x0B, CHR 0x0C, CHR 0x0D])"

definition trim :: "string \<Rightarrow> string" where
  "trim s = rev (dropWhile is_space (rev (dropWhile is_space s)))"

definition is_digit :: "char \<Rightarrow> bool" where
  "is_digit c = (c \<in> set ''0123456789'')"

definition digit_value :: "char \<Rightarrow> nat" where
  "digit_value c = of_char c - 48"

definition nat_of_digits :: "string \<Rightarrow> nat" where
  "nat_of_digits ds = foldl (\<lambda>n c. 10 * n + digit_value c) 0 ds"

definition radix_value :: "nat \<Rightarrow> char \<Rightarrow> nat option" where
  "radix_value b c =
     (if is_digit c \<and> of_char c - 48 < b then Some (of_char c - 48)
      else if c \<in> set ''abcdef'' \<and> of_char c - 87 < b then Some (of_char c - 87)
      else if c \<in> set ''ABCDEF'' \<and> of_char c - 55 < b then Some (of_char c - 55)
      else None)"

fun radix_digits :: "nat \<Rightarrow> nat \<Rightarrow> string \<Rightarrow> nat option" where
  "radix_digits b acc [] = Some acc"
| "radix_digits b acc (c # cs) =
     (case radix_value b c of None \<Rightarrow> None | Some d \<Rightarrow> radix_digits b (acc * b + d) cs)"

fun non_decimal :: "string \<Rightarrow> nat option" where
  "non_decimal (z # x # d # ds) =
     (if z \<noteq> CHR ''0'' then None
      else if x \<in> set ''xX'' then radix_digits 16 0 (d # ds)
      else if x \<in> set ''oO'' then radix_digits 8 0 (d # ds)
      else if x \<in> set ''bB'' then radix_digits 2 0 (d # ds)
      else None)"
| "non_decimal s = None"

text \<open>The exponent part: nothing, or \<^verbatim>\<open>e\<close> with an optionally signed run of digits.\<close>

definition exponent_digits :: "string \<Rightarrow> int option" where
  "exponent_digits ds =
     (if ds \<noteq> [] \<and> list_all is_digit ds then Some (int (nat_of_digits ds)) else None)"

fun exponent :: "string \<Rightarrow> int option" where
  "exponent [] = Some 0"
| "exponent (c # cs) =
     (if c \<notin> set ''eE'' then None
      else (case cs of
              s # ds \<Rightarrow>
                if s = CHR ''+'' then exponent_digits ds
                else if s = CHR ''-'' then map_option uminus (exponent_digits ds)
                else exponent_digits cs
            | [] \<Rightarrow> None))"

definition scale :: "rat \<Rightarrow> int \<Rightarrow> rat" where
  "scale m ex = (if 0 \<le> ex then m * 10 ^ nat ex else m / 10 ^ nat (- ex))"

text \<open>An unsigned decimal literal, given as its integer digits \<open>ip\<close>, whether a dot
  follows, the fraction digits \<open>fp\<close> and the rest, which must be an exponent part.\<close>

definition decimal_of :: "string \<Rightarrow> string \<Rightarrow> string \<Rightarrow> js_number" where
  "decimal_of ip fp rest =
     (if ip = [] \<and> fp = [] then NaN
      else (case exponent rest of
              None \<Rightarrow> NaN
            | Some ex \<Rightarrow>
                Fin (scale (of_nat (nat_of_digits ip) + of_nat (nat_of_digits fp) / 10 ^ length fp) ex)))"

definition after_integer :: "string \<Rightarrow> string \<Rightarrow> js_number" where
  "after_integer ip r =
     (case r of
        c # t \<Rightarrow>
          if c = CHR ''.'' then decimal_of ip (takeWhile is_digit t) (dropWhile is_digit t)
          else decimal_of ip [] r
      | [] \<Rightarrow> decimal_of ip [] [])"

definition unsigned_decimal :: "string \<Rightarrow> js_number" where
  "unsigned_decimal s =
     (if s = ''Infinity'' then PosInfinity
      else after_integer (takeWhile is_digit s) (dropWhile is_digit s))"

fun negate :: "js_number \<Rightarrow> js_number" where
  "negate NaN = NaN"
| "negate PosInfinity = NegInfinity"
| "negate NegInfinity = PosInfinity"
| "negate (Fin q) = Fin (- q)"

definition signed_decimal :: "string \<Rightarrow> js_number" where
  "signed_decimal s =
     (case s of
        c # t \<Rightarrow>
          if c = CHR ''+'' then unsigned_decimal t
          else if c = CHR ''-'' then negate (unsigned_decimal t)
          else unsigned_decimal s
      | [] \<Rightarrow> Fin 0)"

definition number_of_trimmed :: "string \<Rightarrow> js_number" where
  "number_of_trimmed t =
     (case non_decimal t of Some n \<Rightarrow> Fin (of_nat n) | None \<Rightarrow> signed_decimal t)"

definition js_Number :: "string \<Rightarrow> js_number" where
  "js_Number s = number_of_trimmed (trim s)"

text \<open>\<^verbatim>\<open>new Date(v)\<close> for a number: the time value is \<open>v\<close> cut to an integer, and there is
  none when \<open>v\<close> is not finite or beyond \<open>8.64\<cdot>10\<^sup>1\<^sup>5\<close> milliseconds either side of the
  epoch.\<close>

definition new_Date :: "js_number \<Rightarrow> js_date" where
  "new_Date v =
     (case v of
        Fin q \<Rightarrow>
          if \<bar>q\<bar> > 8640000000000000 then Invalid_Date
          else Date (if 0 \<le> q then \<lfloor>q\<rfloor> else \<lceil>q\<rceil>)
      | _ \<Rightarrow> Invalid_Date)"

section \<open>Voice recording storage\<close>

text \<open>
  An upload as the storage callbacks see it: \<open>form\<close> holds the text fields of the
  multipart body that precede the file part (\<^verbatim>\<open>req.body\<close> when \<^verbatim>\<open>filename\<close> runs, each
  field sent once), \<open>audio\<close> the content of the file field \<^verbatim>\<open>audio\<close> if there is one.
\<close>

record upload_request =
  form :: "(string \<times> string) list"
  audio :: "blob option"

text \<open>The \<^verbatim>\<open>filename\<close> callback of the disk storage.\<close>

definition storage_filename :: "env \<Rightarrow> upload_request \<Rightarrow> string" where
  "storage_filename e req =
     or_default (map_of (form req) ''student_id'') ''unknown'' @ ''_''
       @ or_default (map_of (form req) ''type'') ''check'' @ ''_''
       @ int_to_string (now e) @ ''.webm''"

text \<open>Writing a file into the directory: an existing name is overwritten in place, a new
  one is listed last (the enumeration order is the file system's; no result here depends
  on it).\<close>

fun write_file :: "string \<Rightarrow> blob \<Rightarrow> (string \<times> blob) list \<Rightarrow> (string \<times> blob) list" where
  "write_file name b [] = [(name, b)]"
| "write_file name b ((n, c) # d) =
     (if n = name then (n, b) # d else (n, c) # write_file name b d)"

text \<open>A name that is a single path component: the storage joins the name to the
  directory path, so a name with a separator or a NUL byte, or one too long for a
  directory entry, does not name an entry of \<^verbatim>\<open>voices\<close>.\<close>

definition plain_name :: "string \<Rightarrow> bool" where
  "plain_name name = (CHR ''/'' \<notin> set name \<and> CHR 0x00 \<notin> set name \<and> length name \<le> 255)"

text \<open>
  The middleware \<^verbatim>\<open>upload.single('audio')\<close>: without a file part nothing is stored and
  \<^verbatim>\<open>req.file\<close> stays \<^verbatim>\<open>undefined\<close>; with one, the \<^verbatim>\<open>destination\<close> callback creates the
  directory if it is missing, and the file is written under the generated name, which
  becomes \<^verbatim>\<open>req.file.filename\<close>. The result is \<open>None\<close> where the generated name is not a
  plain name: what the file system does with such a path is outside this model.
\<close>

definition upload_single :: "env \<Rightarrow> upload_request \<Rightarrow> server \<Rightarrow> (server \<times> (js_error + string option)) option" where
  "upload_single e req s =
     (case audio req of
        None \<Rightarrow> Some (s, Inr None)
      | Some b \<Rightarrow>
          if \<not> plain_name (storage_filename e req) then None
          else if \<not> disk_ok e then Some (s, Inl IOError)
          else Some (s\<lparr>voices := Some (write_file (storage_filename e req) b
                                        (case voices s of None \<Rightarrow> [] | Some d \<Rightarrow> d))\<rparr>,
                     Inr (Some (storage_filename e req))))"

text \<open>The two upload routes share one handler shape; they differ in the message only.
  Reading \<^verbatim>\<open>req.file.filename\<close> throws a TypeError when there is no file.\<close>

definition voice_route :: "string \<Rightarrow> env \<Rightarrow> upload_request \<Rightarrow> server \<Rightarrow> (server \<times> outcome) option" where
  "voice_route message e req s =
     (case upload_single e req s of
        None \<Rightarrow> None
      | Some (s1, Inl err) \<Rightarrow> Some (s1, Threw err)
      | Some (s1, Inr None) \<Rightarrow> Some (s1, Threw TypeError)
      | Some (s1, Inr (Some name)) \<Rightarrow>
          Some (s1, Responded 200 (JObj [(''ok'', JBool True), (''message'', JStr message),
                                         (''file'', JStr name)])))"

text \<open>\<^verbatim>\<open>POST /api/voice/enroll\<close> and \<^verbatim>\<open>POST /api/voice/check\<close>.\<close>

definition voice_enroll :: "env \<Rightarrow> upload_request \<Rightarrow> server \<Rightarrow> (server \<times> outcome) option" where
  "voice_enroll = voice_route ''Voice enrolled and saved''"

definition voice_check :: "env \<Rightarrow> upload_request \<Rightarrow> server \<Rightarrow> (server \<times> outcome) option" where
  "voice_check = voice_route ''Voice sample saved for review''"

text \<open>The status of the answer. An error thrown by a synchronous handler, as the upload
  handlers are, goes to the framework's default error handler, which answers 500 for an
  error object without a status of its own.\<close>

fun http_status :: "outcome \<Rightarrow> nat" where
  "http_status (Responded st b) = st"
| "http_status (Threw err) = 500"

section \<open>Listing the voice files\<close>

record voice_sample =
  student_id :: string
  type' :: string
  filename :: string
  url :: string
  timestamp' :: "string option"

definition sample_date :: "string list \<Rightarrow> js_date option" where
  "sample_date ps =
     (case part ps 2 of
        None \<Rightarrow> None
      | Some p \<Rightarrow> if p = [] then None else Some (new_Date (js_Number p)))"

definition describe_parts :: "string \<Rightarrow> string list \<Rightarrow> js_error + voice_sample" where
  "describe_parts f ps =
     (case sample_date ps of
        None \<Rightarrow>
          Inr \<lparr>student_id = or_default (part ps 0) ''unknown'',
               type' = or_default (part ps 1) ''unknown'',
               filename = f, url = ''/voices/'' @ f, timestamp' = None\<rparr>
      | Some ts \<Rightarrow>
          (case toISOString ts of
             Inl err \<Rightarrow> Inl err
           | Inr str \<Rightarrow>
               Inr \<lparr>student_id = or_default (part ps 0) ''unknown'',
                    type' = or_default (part ps 1) ''unknown'',
                    filename = f, url = ''/voices/'' @ f, timestamp' = Some str\<rparr>))"

text \<open>The function mapped over the file names: the name without its first \<^verbatim>\<open>.webm\<close>,
  split at every underscore.\<close>

definition describe :: "string \<Rightarrow> js_error + voice_sample" where
  "describe f = describe_parts f (js_split CHR ''_'' (js_replace ''.webm'' [] f))"

text \<open>\<^verbatim>\<open>files.map(...)\<close>: the first file whose descriptor throws ends the whole map.\<close>

fun describe_all :: "string list \<Rightarrow> js_error + voice_sample list" where
  "describe_all [] = Inr []"
| "describe_all (f # fs) =
     (case describe f of
        Inl err \<Rightarrow> Inl err
      | Inr d \<Rightarrow> (case describe_all fs of Inl err \<Rightarrow> Inl err | Inr ds \<Rightarrow> Inr (d # ds)))"

text \<open>\<^verbatim>\<open>GET /api/voices\<close>.\<close>

definition voices_listing :: "server \<Rightarrow> js_error + voice_sample list" where
  "voices_listing s =
     (case voices s of
        None \<Rightarrow> Inr []
      | Some dir \<Rightarrow> describe_all (filter (\<lambda>f. endsWith f ''.webm'') (map fst dir)))"

section \<open>Example inputs\<close>


definition fresh_server :: server where
  "fresh_server = \<lparr>workbook = Map.empty, excelFile = None, voices = None\<rparr>"

definition example_config :: config where
  "example_config = \<lparr>DEVICE_API_KEY = Some ''secret''\<rparr>"

definition example_env :: env where
  "example_env = \<lparr>now = 1700000000000, disk_ok = True\<rparr>"

definition started_server :: server where
  "started_server = fst (initExcel example_env fresh_server)"

definition qr_event :: jsval where
  "qr_event = JObj [(''token_or_pin'', JStr ''ABC123''), (''method'', JStr ''qr'')]"

definition pin_event :: jsval where
  "pin_event = JObj [(''token_or_pin'', JStr ''4711''), (''method'', JStr ''pin''),
                     (''extras'', JObj [(''entered_pin'', JStr ''4711'')])]"

definition ingest_request :: "string option \<Rightarrow> jsval list \<Rightarrow> device_request" where
  "ingest_request k evs =
     \<lparr>x_device_key = k, body = JObj [(''device_id'', JStr ''D1''), (''events'', JArr evs)]\<rparr>"

definition later_env :: env where
  "later_env = \<lparr>now = 1700000060000, disk_ok = True\<rparr>"

definition bare_extras_event :: jsval where
  "bare_extras_event =
     JObj [(''token_or_pin'', JStr ''ABC123''), (''method'', JStr ''qr''), (''extras'', JObj [])]"

text \<open>Uploads: with a student id only, with a type field as well, and without a file.\<close>

definition enroll_upload :: "string \<Rightarrow> upload_request" where
  "enroll_upload sid = \<lparr>form = [(''student_id'', sid)], audio = Some [82, 73, 70, 70]\<rparr>"

definition typed_upload :: "string \<Rightarrow> string \<Rightarrow> upload_request" where
  "typed_upload sid t =
     \<lparr>form = [(''student_id'', sid), (''type'', t)], audio = Some [82, 73, 70, 70]\<rparr>"

definition empty_upload :: upload_request where
  "empty_upload = \<lparr>form = [(''student_id'', ''S42'')], audio = None\<rparr>"

definition server_with_files :: "string list \<Rightarrow> server" where
  "server_with_files names = started_server\<lparr>voices := Some (map (\<lambda>n. (n, [82, 73, 70, 70])) names)\<rparr>"

section \<open>Evaluation rules\<close>

text \<open>Rules with which the simplifier evaluates the model on concrete inputs: the digits of
  a numeral, and the unfolding of the definitions.\<close>

lemma digits_of_numeral:
  "digits_of (numeral k) =
     (if numeral k < (10::nat) then [digit_char (numeral k)]
      else digits_of (numeral k div 10) @ [digit_char (numeral k mod 10)])"
  by (rule digits_of.simps)

lemma digits_of_0: "digits_of 0 = ''0''"
  by (simp add: digits_of.simps [of 0] digit_char_def)

lemma digits_of_1: "digits_of (Suc 0) = ''1''"
  by (simp add: digits_of.simps [of "Suc 0"] digit_char_def)

lemma replicate_numeral: "replicate (numeral k) x = x # replicate (pred_numeral k) x"
  by (simp add: numeral_eq_Suc)

lemmas date_eval = replicate_numeral iso_of_ms_def iso_time_def iso_year_def civil_from_days_def
  civil_of_doe_def civil_of_yoe_def civil_of_doy_def civil_of_month_def
  pad_def digit_char_def digits_of_numeral digits_of_0 digits_of_1 int_to_string_def

lemmas example_defs = fresh_server_def example_config_def example_env_def later_env_def
  started_server_def qr_event_def pin_event_def bare_extras_event_def ingest_request_def

lemmas upload_defs = enroll_upload_def typed_upload_def empty_upload_def server_with_files_def

lemmas ledger_eval = initExcel_def restart_def set_columns_def attendance_columns_def
  device_event_def new_row_def event_pin_def and_then_def append_and_write_def addRow_def
  lookup_def attendance_def getSheetValues_def row_record_def cell_def ledger_ready_def

lemmas number_eval = js_Number_def number_of_trimmed_def trim_def is_space_def signed_decimal_def
  unsigned_decimal_def after_integer_def decimal_of_def scale_def exponent_digits_def
  is_digit_def digit_value_def nat_of_digits_def radix_value_def

lemmas voice_eval = voices_listing_def describe_def describe_parts_def sample_date_def part_def
  or_default_def endsWith_def new_Date_def storage_filename_def upload_single_def voice_route_def
  voice_enroll_def voice_check_def plain_name_def

lemma iso_example: "iso_of_ms 1700000000000 = ''2023-11-14T22:13:20.000Z''"
  by (simp add: date_eval)

lemma iso_later: "iso_of_ms 1700000060000 = ''2023-11-14T22:14:20.000Z''"
  by (simp add: date_eval)

lemma clock_example: "int_to_string 1700000000000 = ''1700000000000''"
  by (simp add: date_eval)

section \<open>The ledger\<close>

lemma row_record_of_keys:
  assumes "map key cs = [''timestamp'', ''device_id'', ''token'', ''pin'', ''method'']"
  shows "row_record (map (\<lambda>c. lookup obj (key c)) cs) =
           \<lparr>timestamp = lookup obj ''timestamp'', device_id = lookup obj ''device_id'',
            token = lookup obj ''token'', pin = lookup obj ''pin'', method' = lookup obj ''method''\<rparr>"
proof -
  have "map (\<lambda>c. lookup obj (key c)) cs = map (lookup obj) (map key cs)"
    by (simp add: comp_def)
  then show ?thesis
    using assms by (simp add: row_record_def cell_def)
qed

lemma attendance_addRow:
  assumes "workbook s ''Attendance'' = Some sheet"
    and "map key (columns sheet) = [''timestamp'', ''device_id'', ''token'', ''pin'', ''method'']"
    and "rows sheet \<noteq> []"
  shows "attendance (fst (append_and_write e sheet obj s)) =
           Inr (map row_record (tl (rows sheet)) @
             [\<lparr>timestamp = lookup obj ''timestamp'', device_id = lookup obj ''device_id'',
               token = lookup obj ''token'', pin = lookup obj ''pin'', method' = lookup obj ''method''\<rparr>])"
  using assms row_record_of_keys [OF assms(2), of obj]
  by (cases "rows sheet")
     (simp_all add: attendance_def append_and_write_def addRow_def getSheetValues_def)

lemma attendance_ready:
  assumes "workbook s ''Attendance'' = Some sheet"
  shows "attendance s = Inr (map row_record (tl (rows sheet)))"
  using assms by (cases "rows sheet") (simp_all add: attendance_def getSheetValues_def)

lemma ledger_readyE:
  assumes "ledger_ready s"
  obtains sheet where "workbook s ''Attendance'' = Some sheet"
    and "map key (columns sheet) = [''timestamp'', ''device_id'', ''token'', ''pin'', ''method'']"
    and "rows sheet \<noteq> []"
  using assms by (auto simp: ledger_ready_def split: option.splits)

lemma new_row_fields:
  assumes "new_row e b ev = Inr obj"
  shows "\<exists>d t p m. member b ''device_id'' = Inr d \<and> member ev ''token_or_pin'' = Inr t
           \<and> event_pin ev = Inr p \<and> member ev ''method'' = Inr m
           \<and> obj = [(''timestamp'', JStr (iso_of_ms (now e))), (''device_id'', d), (''token'', t),
                    (''pin'', p), (''method'', m)]"
  using assms by (auto simp: new_row_def and_then_def split: sum.splits)

lemma device_event_good_key:
  assumes "x_device_key req = DEVICE_API_KEY cfg"
    and "member (body req) ''events'' = Inr evs" and "element0 evs = Inr ev"
    and "workbook s ''Attendance'' = Some sheet"
  shows "device_event cfg e req s =
           (case new_row e (body req) ev of
              Inl err \<Rightarrow> (s, Threw err)
            | Inr obj \<Rightarrow> append_and_write e sheet obj s)"
  using assms by (simp add: device_event_def and_then_def)

lemma member_defined:
  assumes "member v k = Inr x"
  obtains y where "member v k' = Inr y"
  using assms by (cases v) simp_all

text \<open>
  Claim C1. An ingest request with the correct \<^verbatim>\<open>x-device-key\<close> and a non-empty events list,
  once the handler has answered with success, leaves the attendance listing one record
  longer: the earlier records followed by one whose \<^verbatim>\<open>device_id\<close> is the payload's,
  whose \<^verbatim>\<open>token\<close> and \<^verbatim>\<open>method\<close> are the first event's \<^verbatim>\<open>token_or_pin\<close> and
  \<^verbatim>\<open>method\<close>, whose \<^verbatim>\<open>pin\<close> is the first event's \<^verbatim>\<open>extras.entered_pin\<close> (the empty
  string when the event has no \<^verbatim>\<open>extras\<close>), and whose \<^verbatim>\<open>timestamp\<close> is the ISO rendering
  of the server clock read by the handler.
\<close>

theorem ingest_appends_one_record:
  assumes ready: "ledger_ready s"
    and key: "x_device_key req = Some k" "DEVICE_API_KEY cfg = Some k"
    and evs: "member (body req) ''events'' = Inr (JArr (ev # evs))"
    and ok: "device_event cfg e req s = (s', Responded 200 saved_body)"
  shows "\<exists>old d t x p m.
           attendance s = Inr old
         \<and> member (body req) ''device_id'' = Inr d
         \<and> member ev ''token_or_pin'' = Inr t
         \<and> member ev ''extras'' = Inr x
         \<and> (if truthy x then member x ''entered_pin'' = Inr p else p = JStr [])
         \<and> member ev ''method'' = Inr m
         \<and> attendance s' =
             Inr (old @ [\<lparr>timestamp = JStr (iso_of_ms (now e)), device_id = d, token = t,
                          pin = p, method' = m\<rparr>])"
proof -
  from ready obtain sheet where sh: "workbook s ''Attendance'' = Some sheet"
    and keys: "map key (columns sheet) = [''timestamp'', ''device_id'', ''token'', ''pin'', ''method'']"
    and rows: "rows sheet \<noteq> []"
    by (rule ledger_readyE)
  have step: "device_event cfg e req s =
      (case new_row e (body req) ev of Inl err \<Rightarrow> (s, Threw err)
       | Inr obj \<Rightarrow> append_and_write e sheet obj s)"
    using device_event_good_key [of req cfg "JArr (ev # evs)" ev s sheet e] key evs sh by simp
  with ok obtain obj where obj: "new_row e (body req) ev = Inr obj"
    and aw: "append_and_write e sheet obj s = (s', Responded 200 saved_body)"
    by (cases "new_row e (body req) ev") simp_all
  from new_row_fields [OF obj] obtain d t p m where
    f: "member (body req) ''device_id'' = Inr d" "member ev ''token_or_pin'' = Inr t"
       "event_pin ev = Inr p" "member ev ''method'' = Inr m"
    and o: "obj = [(''timestamp'', JStr (iso_of_ms (now e))), (''device_id'', d), (''token'', t),
                    (''pin'', p), (''method'', m)]"
    by blast
  from f(3) obtain x where x: "member ev ''extras'' = Inr x"
    and p: "if truthy x then member x ''entered_pin'' = Inr p else p = JStr []"
    by (auto simp: event_pin_def and_then_def split: sum.splits if_splits)
  have "attendance s' = attendance (fst (append_and_write e sheet obj s))"
    using aw by simp
  also have "\<dots> = Inr (map row_record (tl (rows sheet)) @
      [\<lparr>timestamp = JStr (iso_of_ms (now e)), device_id = d, token = t, pin = p, method' = m\<rparr>])"
    using attendance_addRow [OF sh keys rows, of e obj] by (simp add: o lookup_def)
  finally show ?thesis
    using attendance_ready [OF sh] f x p by blast
qed

theorem ingest_appends_one_record_witness:
  "ledger_ready started_server
   \<and> device_event example_config example_env (ingest_request (Some ''secret'') [qr_event]) started_server
       = (fst (device_event example_config example_env (ingest_request (Some ''secret'') [qr_event]) started_server),
          Responded 200 saved_body)
   \<and> attendance started_server = Inr []
   \<and> attendance (fst (device_event example_config example_env
         (ingest_request (Some ''secret'') [qr_event]) started_server))
       = Inr [\<lparr>timestamp = JStr ''2023-11-14T22:13:20.000Z'', device_id = JStr ''D1'',
               token = JStr ''ABC123'', pin = JStr [], method' = JStr ''qr''\<rparr>]"
proof -
  let ?req = "ingest_request (Some ''secret'') [qr_event]"
  let ?s' = "fst (device_event example_config example_env ?req started_server)"
  have r: "ledger_ready started_server"
    by (simp add: example_defs ledger_eval)
  have k: "x_device_key ?req = Some ''secret''" "DEVICE_API_KEY example_config = Some ''secret''"
    by (simp_all add: example_defs)
  have evs: "member (body ?req) ''events'' = Inr (JArr (qr_event # []))"
    by (simp add: example_defs)
  have ok: "device_event example_config example_env ?req started_server = (?s', Responded 200 saved_body)"
    by (simp add: example_defs ledger_eval)
  have old: "attendance started_server = Inr []"
    by (simp add: example_defs ledger_eval)
  have n: "now example_env = 1700000000000"
    by (simp add: example_defs)
  from ingest_appends_one_record [OF r k evs ok]
  have "attendance ?s' = Inr [\<lparr>timestamp = JStr ''2023-11-14T22:13:20.000Z'', device_id = JStr ''D1'',
               token = JStr ''ABC123'', pin = JStr [], method' = JStr ''qr''\<rparr>]"
    by (auto simp: old n iso_example qr_event_def ingest_request_def)
  with r ok old show ?thesis by simp
qed

text \<open>
  Claim C2. With a device key configured, a request whose \<^verbatim>\<open>x-device-key\<close> header is missing
  or different is answered 401 and the server state is the one before: no row is added
  and the file is not written.
\<close>

theorem bad_key_rejected:
  assumes "DEVICE_API_KEY cfg = Some k" and "x_device_key req \<noteq> Some k"
  shows "device_event cfg e req s = (s, Responded 401 (JObj [(''error'', JStr ''invalid key'')]))"
  using assms by (simp add: device_event_def)

theorem bad_key_rejected_witness:
  "device_event example_config example_env (ingest_request None [qr_event]) started_server
     = (started_server, Responded 401 (JObj [(''error'', JStr ''invalid key'')]))
   \<and> device_event example_config example_env (ingest_request (Some ''guess'') [qr_event]) started_server
     = (started_server, Responded 401 (JObj [(''error'', JStr ''invalid key'')]))"
  using bad_key_rejected [of example_config "''secret''" "ingest_request None [qr_event]"
          example_env started_server]
        bad_key_rejected [of example_config "''secret''" "ingest_request (Some ''guess'') [qr_event]"
          example_env started_server]
  by (simp add: example_config_def ingest_request_def)

text \<open>
  Claim C9. With the correct key and an empty events list, \<^verbatim>\<open>events[0]\<close> is
  \<^verbatim>\<open>undefined\<close> and nothing checks it: reading \<^verbatim>\<open>event.token_or_pin\<close> throws a TypeError
  before \<^verbatim>\<open>addRow\<close> is called, so the workbook in memory and the file are unchanged.
\<close>

theorem empty_batch_throws:
  assumes "x_device_key req = DEVICE_API_KEY cfg"
    and "member (body req) ''events'' = Inr (JArr [])"
  shows "device_event cfg e req s = (s, Threw TypeError)"
proof -
  from assms(2) obtain d where "member (body req) ''device_id'' = Inr d"
    by (rule member_defined)
  with assms show ?thesis
    by (simp add: device_event_def and_then_def new_row_def split: option.splits)
qed

theorem empty_batch_throws_witness:
  "device_event example_config example_env (ingest_request (Some ''secret'') []) started_server
     = (started_server, Threw TypeError)"
  using empty_batch_throws [of "ingest_request (Some ''secret'') []" example_config
          example_env started_server]
  by (simp add: example_config_def ingest_request_def)

section \<open>Batches, restarts and the PIN column\<close>

lemma started_server_ready: "ledger_ready started_server"
  by (simp add: example_defs ledger_eval)

lemma started_server_listing: "attendance started_server = Inr []"
  by (simp add: example_defs ledger_eval)

lemma device_event_success:
  assumes ok: "device_event cfg e req s = (s', Responded 200 saved_body)"
  obtains sheet ev obj where "workbook s ''Attendance'' = Some sheet"
    and "and_then (member (body req) ''events'') element0 = Inr ev"
    and "new_row e (body req) ev = Inr obj"
    and "append_and_write e sheet obj s = (s', Responded 200 saved_body)"
  using ok
  by (auto simp: device_event_def split: if_splits sum.splits option.splits)

lemma append_and_write_ready:
  assumes "workbook s ''Attendance'' = Some sheet"
    and "map key (columns sheet) = [''timestamp'', ''device_id'', ''token'', ''pin'', ''method'']"
  shows "ledger_ready (fst (append_and_write e sheet obj s))"
  using assms by (simp add: ledger_ready_def append_and_write_def addRow_def)

lemma append_and_write_synced:
  assumes "append_and_write e sheet obj s = (s', Responded st b)"
  shows "excelFile s' = Some (workbook s')"
  using assms by (auto simp: append_and_write_def split: if_splits)

lemma device_event_step:
  assumes ready: "ledger_ready s"
    and ok: "device_event cfg e req s = (s', Responded 200 saved_body)"
  shows "ledger_ready s' \<and> excelFile s' = Some (workbook s')
       \<and> (\<exists>old r. attendance s = Inr old \<and> attendance s' = Inr (old @ [r]))"
proof -
  from ready obtain sheet where sh: "workbook s ''Attendance'' = Some sheet"
    and keys: "map key (columns sheet) = [''timestamp'', ''device_id'', ''token'', ''pin'', ''method'']"
    and rows: "rows sheet \<noteq> []"
    by (rule ledger_readyE)
  from ok obtain sheet' ev obj where sh': "workbook s ''Attendance'' = Some sheet'"
    and aw': "append_and_write e sheet' obj s = (s', Responded 200 saved_body)"
    by (rule device_event_success)
  from sh sh' aw' have aw: "append_and_write e sheet obj s = (s', Responded 200 saved_body)"
    by simp
  have s': "s' = fst (append_and_write e sheet obj s)"
    using aw by simp
  have "ledger_ready s'"
    unfolding s' using sh keys by (rule append_and_write_ready)
  moreover have "excelFile s' = Some (workbook s')"
    using aw by (rule append_and_write_synced)
  moreover have "\<exists>old r. attendance s = Inr old \<and> attendance s' = Inr (old @ [r])"
    using attendance_ready [OF sh] attendance_addRow [OF sh keys rows, of e obj] s' by simp
  ultimately show ?thesis by simp
qed

lemma ingest_all_successful:
  assumes "ledger_ready s" and "excelFile s = Some (workbook s)"
    and "ingest_all cfg reqs s = (s', outs)"
    and "\<forall>out \<in> set outs. out = Responded 200 saved_body"
  shows "ledger_ready s' \<and> excelFile s' = Some (workbook s')
       \<and> (\<exists>old new. attendance s = Inr old \<and> length new = length reqs
              \<and> attendance s' = Inr (old @ new))"
  using assms
proof (induction reqs arbitrary: s s' outs)
  case Nil
  then obtain sheet where "workbook s ''Attendance'' = Some sheet"
    by (auto elim: ledger_readyE)
  from attendance_ready [OF this] Nil show ?case by simp
next
  case (Cons a reqs)
  obtain e req where a: "a = (e, req)" by (cases a)
  obtain s1 out where d: "device_event cfg e req s = (s1, out)"
    by (cases "device_event cfg e req s")
  obtain s2 outs2 where i: "ingest_all cfg reqs s1 = (s2, outs2)"
    by (cases "ingest_all cfg reqs s1")
  from Cons.prems(3) a d i have s': "s' = s2" and outs: "outs = out # outs2"
    by simp_all
  from Cons.prems(4) outs have out: "out = Responded 200 saved_body"
    and rest: "\<forall>out \<in> set outs2. out = Responded 200 saved_body"
    by simp_all
  from device_event_step [OF Cons.prems(1) d [unfolded out]]
  obtain old r where r1: "ledger_ready s1" and y1: "excelFile s1 = Some (workbook s1)"
    and l0: "attendance s = Inr old" and l1: "attendance s1 = Inr (old @ [r])"
    by blast
  from Cons.IH [OF r1 y1 i rest] l1
  obtain new where r2: "ledger_ready s2" and y2: "excelFile s2 = Some (workbook s2)"
    and n: "length new = length reqs" and l2: "attendance s2 = Inr ((old @ [r]) @ new)"
    by auto
  have "length (r # new) = length (a # reqs)" using n by simp
  moreover have "attendance s2 = Inr (old @ (r # new))" using l2 by simp
  ultimately show ?case
    using r2 y2 l0 s' by blast
qed

lemma restart_synced:
  assumes "excelFile s = Some (workbook s)" and "disk_ok e"
  shows "restart e s = (s, None)"
  using assms by (simp add: restart_def initExcel_def)

lemma member_of_value:
  assumes "v \<noteq> JUndefined" and "v \<noteq> JNull"
  obtains x where "member v k = Inr x"
  using assms by (cases v) simp_all

lemma truthy_value: "truthy v \<Longrightarrow> v \<noteq> JUndefined \<and> v \<noteq> JNull"
  by (cases v) simp_all

lemma event_pin_of_value:
  assumes "ev \<noteq> JUndefined" and "ev \<noteq> JNull"
  obtains x p where "member ev ''extras'' = Inr x"
    and "if truthy x then member x ''entered_pin'' = Inr p else p = JStr []"
    and "event_pin ev = Inr p"
proof -
  from assms obtain x where x: "member ev ''extras'' = Inr x"
    by (rule member_of_value)
  show ?thesis
  proof (cases "truthy x")
    case True
    then obtain p where "member x ''entered_pin'' = Inr p"
      using truthy_value [of x] member_of_value [of x "''entered_pin''"] by blast
    with x True that show ?thesis
      by (simp add: event_pin_def and_then_def)
  next
    case False
    with x that show ?thesis
      by (simp add: event_pin_def and_then_def)
  qed
qed

text \<open>
  Claim C5. With the correct key and a batch of two or more events whose first is an event
  (not \<^verbatim>\<open>null\<close>), the handler does exactly what it does for the batch cut down to its
  first event: same state, same outcome. The listing grows by the one record built from
  the first event; the second and later events are never read.
\<close>

theorem first_event_only:
  assumes ready: "ledger_ready s"
    and key: "x_device_key req = Some k" "DEVICE_API_KEY cfg = Some k"
    and evs: "member (body req) ''events'' = Inr (JArr (ev # ev2 # evs))"
    and ev: "ev \<noteq> JUndefined" "ev \<noteq> JNull"
    and req1: "x_device_key req1 = Some k"
      "member (body req1) ''device_id'' = member (body req) ''device_id''"
      "member (body req1) ''events'' = Inr (JArr [ev])"
  shows "device_event cfg e req s = device_event cfg e req1 s
       \<and> (\<exists>old d t x p m.
             attendance s = Inr old
           \<and> member (body req) ''device_id'' = Inr d
           \<and> member ev ''token_or_pin'' = Inr t
           \<and> member ev ''extras'' = Inr x
           \<and> (if truthy x then member x ''entered_pin'' = Inr p else p = JStr [])
           \<and> member ev ''method'' = Inr m
           \<and> attendance (fst (device_event cfg e req s)) =
               Inr (old @ [\<lparr>timestamp = JStr (iso_of_ms (now e)), device_id = d, token = t,
                            pin = p, method' = m\<rparr>]))"
proof -
  from ready obtain sheet where sh: "workbook s ''Attendance'' = Some sheet"
    and keys: "map key (columns sheet) = [''timestamp'', ''device_id'', ''token'', ''pin'', ''method'']"
    and rows: "rows sheet \<noteq> []"
    by (rule ledger_readyE)
  from evs obtain d where d: "member (body req) ''device_id'' = Inr d"
    by (rule member_defined)
  from ev obtain t where t: "member ev ''token_or_pin'' = Inr t"
    by (rule member_of_value)
  from ev obtain m where m: "member ev ''method'' = Inr m"
    by (rule member_of_value)
  from ev obtain x p where x: "member ev ''extras'' = Inr x"
    and p: "if truthy x then member x ''entered_pin'' = Inr p else p = JStr []"
    and ep: "event_pin ev = Inr p"
    by (rule event_pin_of_value)
  let ?obj = "[(''timestamp'', JStr (iso_of_ms (now e))), (''device_id'', d), (''token'', t),
               (''pin'', p), (''method'', m)]"
  have row: "new_row e (body req) ev = Inr ?obj"
    using d t m ep by (simp add: new_row_def and_then_def)
  have row1: "new_row e (body req1) ev = Inr ?obj"
    using d t m ep req1(2) by (simp add: new_row_def and_then_def)
  have step: "device_event cfg e req s = append_and_write e sheet ?obj s"
    using device_event_good_key [of req cfg "JArr (ev # ev2 # evs)" ev s sheet e] key evs sh row
    by simp
  have step1: "device_event cfg e req1 s = append_and_write e sheet ?obj s"
    using device_event_good_key [of req1 cfg "JArr [ev]" ev s sheet e] key req1 sh row1
    by simp
  have "attendance (fst (device_event cfg e req s)) =
      Inr (map row_record (tl (rows sheet)) @
        [\<lparr>timestamp = JStr (iso_of_ms (now e)), device_id = d, token = t, pin = p, method' = m\<rparr>])"
    using attendance_addRow [OF sh keys rows, of e ?obj] by (simp add: step lookup_def)
  with attendance_ready [OF sh] d t x p m step step1 show ?thesis
    by auto
qed

theorem first_event_only_witness:
  "ledger_ready started_server
   \<and> member (body (ingest_request (Some ''secret'') [qr_event, pin_event])) ''events''
       = Inr (JArr [qr_event, pin_event])
   \<and> device_event example_config example_env
        (ingest_request (Some ''secret'') [qr_event, pin_event]) started_server
     = device_event example_config example_env
        (ingest_request (Some ''secret'') [qr_event]) started_server
   \<and> attendance (fst (device_event example_config example_env
        (ingest_request (Some ''secret'') [qr_event, pin_event]) started_server))
     = Inr [\<lparr>timestamp = JStr ''2023-11-14T22:13:20.000Z'', device_id = JStr ''D1'',
             token = JStr ''ABC123'', pin = JStr [], method' = JStr ''qr''\<rparr>]"
proof -
  let ?req = "ingest_request (Some ''secret'') [qr_event, pin_event]"
  let ?req1 = "ingest_request (Some ''secret'') [qr_event]"
  have k: "x_device_key ?req = Some ''secret''" "DEVICE_API_KEY example_config = Some ''secret''"
    by (simp_all add: example_defs)
  have evs: "member (body ?req) ''events'' = Inr (JArr (qr_event # pin_event # []))"
    by (simp add: ingest_request_def)
  have ev: "qr_event \<noteq> JUndefined" "qr_event \<noteq> JNull"
    by (simp_all add: qr_event_def)
  have r1: "x_device_key ?req1 = Some ''secret''"
    "member (body ?req1) ''device_id'' = member (body ?req) ''device_id''"
    "member (body ?req1) ''events'' = Inr (JArr [qr_event])"
    by (simp_all add: ingest_request_def)
  have n: "now example_env = 1700000000000"
    by (simp add: example_defs)
  from first_event_only [OF started_server_ready k evs ev r1, of example_env]
  have "device_event example_config example_env ?req started_server
        = device_event example_config example_env ?req1 started_server"
    and "attendance (fst (device_event example_config example_env ?req started_server))
      = Inr [\<lparr>timestamp = JStr ''2023-11-14T22:13:20.000Z'', device_id = JStr ''D1'',
             token = JStr ''ABC123'', pin = JStr [], method' = JStr ''qr''\<rparr>]"
    by (auto simp: started_server_listing n iso_example qr_event_def ingest_request_def)
  with started_server_ready evs show ?thesis by simp
qed

text \<open>
  Claim C6. Starting from a ledger that is set up and in step with its file, after any
  series of ingest requests that were all answered with success, a restart whose read of
  the file succeeds lists the same records in the same order as the running server did:
  the earlier ones followed by one per request.
\<close>

theorem ledger_round_trip:
  assumes ready: "ledger_ready s" and synced: "excelFile s = Some (workbook s)"
    and run: "ingest_all cfg reqs s = (s', outs)"
    and ok: "\<forall>out \<in> set outs. out = Responded 200 saved_body"
    and disk: "disk_ok e"
  shows "\<exists>s'' old new.
           restart e s' = (s'', None)
         \<and> attendance s = Inr old \<and> length new = length reqs
         \<and> attendance s' = Inr (old @ new)
         \<and> attendance s'' = Inr (old @ new)"
proof -
  from ingest_all_successful [OF ready synced run ok]
  obtain old new where y: "excelFile s' = Some (workbook s')"
    and l: "attendance s = Inr old" "length new = length reqs" "attendance s' = Inr (old @ new)"
    by blast
  from restart_synced [OF y disk] l show ?thesis by simp
qed

theorem ledger_round_trip_witness:
  "ledger_ready started_server
   \<and> excelFile started_server = Some (workbook started_server)
   \<and> snd (ingest_all example_config
        [(example_env, ingest_request (Some ''secret'') [qr_event]),
         (later_env, ingest_request (Some ''secret'') [pin_event])] started_server)
       = [Responded 200 saved_body, Responded 200 saved_body]
   \<and> attendance (fst (restart later_env (fst (ingest_all example_config
        [(example_env, ingest_request (Some ''secret'') [qr_event]),
         (later_env, ingest_request (Some ''secret'') [pin_event])] started_server))))
       = Inr [\<lparr>timestamp = JStr ''2023-11-14T22:13:20.000Z'', device_id = JStr ''D1'',
               token = JStr ''ABC123'', pin = JStr [], method' = JStr ''qr''\<rparr>,
              \<lparr>timestamp = JStr ''2023-11-14T22:14:20.000Z'', device_id = JStr ''D1'',
               token = JStr ''4711'', pin = JStr ''4711'', method' = JStr ''pin''\<rparr>]"
proof -
  let ?reqs = "[(example_env, ingest_request (Some ''secret'') [qr_event]),
                (later_env, ingest_request (Some ''secret'') [pin_event])]"
  let ?s' = "fst (ingest_all example_config ?reqs started_server)"
  let ?outs = "snd (ingest_all example_config ?reqs started_server)"
  have y: "excelFile started_server = Some (workbook started_server)"
    by (simp add: example_defs ledger_eval)
  have run: "ingest_all example_config ?reqs started_server = (?s', ?outs)"
    by simp
  have outs: "?outs = [Responded 200 saved_body, Responded 200 saved_body]"
    by (simp add: example_defs ledger_eval)
  have ok: "\<forall>out \<in> set ?outs. out = Responded 200 saved_body"
    unfolding outs by simp
  have d: "disk_ok later_env"
    by (simp add: later_env_def)
  have l: "attendance ?s'
       = Inr [\<lparr>timestamp = JStr ''2023-11-14T22:13:20.000Z'', device_id = JStr ''D1'',
               token = JStr ''ABC123'', pin = JStr [], method' = JStr ''qr''\<rparr>,
              \<lparr>timestamp = JStr ''2023-11-14T22:14:20.000Z'', device_id = JStr ''D1'',
               token = JStr ''4711'', pin = JStr ''4711'', method' = JStr ''pin''\<rparr>]"
    by (simp add: example_defs ledger_eval iso_example iso_later)
  from ledger_round_trip [OF started_server_ready y run ok d]
  have "attendance (fst (restart later_env ?s')) = attendance ?s'"
    by auto
  with started_server_ready y outs l show ?thesis by simp
qed

text \<open>
  Claim C7. The claim asks for an empty-string \<^verbatim>\<open>pin\<close> whenever the first event carries no
  entered PIN. The handler writes \<^verbatim>\<open>event.extras ? event.extras.entered_pin : ""\<close>: for
  an event whose \<^verbatim>\<open>extras\<close> object is there but has no \<^verbatim>\<open>entered_pin\<close>, the request
  succeeds and the appended record's \<^verbatim>\<open>pin\<close> is \<^verbatim>\<open>undefined\<close>, not the empty string.
\<close>

theorem pin_undefined_when_extras_lacks_pin:
  "attendance (fst (device_event example_config example_env
      (ingest_request (Some ''secret'') [bare_extras_event]) started_server))
     = Inr [\<lparr>timestamp = JStr ''2023-11-14T22:13:20.000Z'', device_id = JStr ''D1'',
             token = JStr ''ABC123'', pin = JUndefined, method' = JStr ''qr''\<rparr>]
   \<and> snd (device_event example_config example_env
      (ingest_request (Some ''secret'') [bare_extras_event]) started_server)
     = Responded 200 saved_body"
  by (simp add: example_defs ledger_eval iso_example)

section \<open>Digits\<close>

lemma digit_char_is_digit: "d < 10 \<Longrightarrow> is_digit (digit_char d)"
proof -
  assume "d < 10"
  then have "d \<in> {0, 1, 2, 3, 4, 5, 6, 7, 8, 9}" by auto
  then show ?thesis
    by (auto simp: is_digit_def digit_char_def)
qed

lemma digit_value_digit_char: "d < 10 \<Longrightarrow> digit_value (digit_char d) = d"
proof -
  assume "d < 10"
  then have "d \<in> {0, 1, 2, 3, 4, 5, 6, 7, 8, 9}" by auto
  then show ?thesis
    by (auto simp: digit_value_def digit_char_def)
qed

lemma digits_of_all_digits: "list_all is_digit (digits_of n)"
proof (induction n rule: digits_of.induct)
  case (1 n)
  show ?case
  proof (cases "n < 10")
    case True
    then show ?thesis
      by (simp add: digits_of.simps [of n] digit_char_is_digit)
  next
    case False
    with "1" show ?thesis
      by (simp add: digits_of.simps [of n] digit_char_is_digit)
  qed
qed

lemma digits_of_not_Nil: "digits_of n \<noteq> []"
  by (simp add: digits_of.simps [of n])

lemma nat_of_digits_snoc: "nat_of_digits (ds @ [c]) = 10 * nat_of_digits ds + digit_value c"
  by (simp add: nat_of_digits_def)

lemma nat_of_digits_of: "nat_of_digits (digits_of n) = n"
proof (induction n rule: digits_of.induct)
  case (1 n)
  show ?case
  proof (cases "n < 10")
    case True
    then show ?thesis
      by (simp add: digits_of.simps [of n] nat_of_digits_def digit_value_digit_char)
  next
    case False
    with "1" show ?thesis
      by (simp add: digits_of.simps [of n] nat_of_digits_snoc digit_value_digit_char)
  qed
qed

lemma length_digits_of: "n < 10 ^ k \<Longrightarrow> 0 < k \<Longrightarrow> length (digits_of n) \<le> k"
proof (induction n arbitrary: k rule: digits_of.induct)
  case (1 n)
  show ?case
  proof (cases "n < 10")
    case True
    with "1.prems" show ?thesis
      by (simp add: digits_of.simps [of n])
  next
    case False
    with "1.prems" obtain j where k: "k = Suc j"
      by (cases k) auto
    from False "1.prems" k have "0 < j"
      by (cases j) auto
    moreover from "1.prems" k have "n div 10 < 10 ^ j"
      by (simp add: less_mult_imp_div_less mult.commute)
    ultimately have "length (digits_of (n div 10)) \<le> j"
      using "1.IH" False by simp
    with False k show ?thesis
      by (simp add: digits_of.simps [of n])
  qed
qed

lemma is_digit_not_special:
  assumes "is_digit c"
  shows "\<not> is_space c" and "c \<noteq> CHR ''+''" and "c \<noteq> CHR ''-''" and "c \<noteq> CHR ''.''"
    and "c \<noteq> CHR ''_''" and "c \<noteq> CHR ''/''" and "c \<noteq> CHR 0x00" and "c \<noteq> CHR ''I''"
    and "c \<notin> set ''xX''" and "c \<notin> set ''oO''" and "c \<notin> set ''bB''"
  using assms by (auto simp: is_digit_def is_space_def)

section \<open>Number of a rendered integer\<close>

lemma trim_id:
  assumes "s \<noteq> []" and "\<not> is_space (hd s)" and "\<not> is_space (last s)"
  shows "trim s = s"
proof -
  from assms have "dropWhile is_space s = s"
    by (cases s) simp_all
  moreover from assms have "dropWhile is_space (rev s) = rev s"
    by (cases "rev s") (simp_all add: last_rev [symmetric] hd_rev)
  ultimately show ?thesis
    by (simp add: trim_def)
qed

lemma non_decimal_digits:
  assumes "list_all is_digit ds"
  shows "non_decimal ds = None"
proof (cases ds rule: non_decimal.cases)
  case (1 z x d ds')
  with assms have "is_digit x" by simp
  then show ?thesis
    using 1 is_digit_not_special(9,10,11) [of x] by simp
qed simp_all

lemma non_decimal_minus: "non_decimal (CHR ''-'' # ds) = None"
  by (cases "CHR ''-'' # ds" rule: non_decimal.cases) simp_all

lemma unsigned_decimal_digits:
  assumes "list_all is_digit ds" and "ds \<noteq> []"
  shows "unsigned_decimal ds = Fin (of_nat (nat_of_digits ds))"
proof -
  from assms have "is_digit (hd ds)"
    by (cases ds) simp_all
  then have "ds \<noteq> ''Infinity''"
    using is_digit_not_special(8) [of "hd ds"] by auto
  moreover from assms(1) have tw: "takeWhile is_digit ds = ds" and dw: "dropWhile is_digit ds = []"
    by (simp_all add: list_all_iff)
  ultimately have "unsigned_decimal ds = decimal_of ds [] []"
    unfolding unsigned_decimal_def after_integer_def tw dw by simp
  then show ?thesis
    using assms(2) by (simp add: decimal_of_def scale_def nat_of_digits_def [of "[]"])
qed

lemma js_Number_digits:
  assumes "list_all is_digit ds" and "ds \<noteq> []"
  shows "js_Number ds = Fin (of_nat (nat_of_digits ds))"
proof -
  from assms have h: "is_digit (hd ds)" and l: "is_digit (last ds)"
    by (cases ds, simp_all add: list_all_iff)+
  have "trim ds = ds"
    using assms(2) is_digit_not_special(1) [OF h] is_digit_not_special(1) [OF l]
    by (rule trim_id)
  moreover have "signed_decimal ds = unsigned_decimal ds"
    using assms(2) is_digit_not_special(2,3) [OF h]
    by (cases ds) (simp_all add: signed_decimal_def)
  ultimately show ?thesis
    using non_decimal_digits [OF assms(1)] unsigned_decimal_digits [OF assms]
    by (simp add: js_Number_def number_of_trimmed_def)
qed

lemma js_Number_minus_digits:
  assumes "list_all is_digit ds" and "ds \<noteq> []"
  shows "js_Number (CHR ''-'' # ds) = Fin (- of_nat (nat_of_digits ds))"
proof -
  from assms have l: "is_digit (last ds)"
    by (cases ds) (simp_all add: list_all_iff)
  have "trim (CHR ''-'' # ds) = CHR ''-'' # ds"
    using is_digit_not_special(1) [OF l] assms(2)
    by (intro trim_id) (simp_all add: is_space_def)
  then show ?thesis
    using non_decimal_minus [of ds] unsigned_decimal_digits [OF assms]
    by (simp add: js_Number_def number_of_trimmed_def signed_decimal_def)
qed

lemma js_Number_int_to_string: "js_Number (int_to_string i) = Fin (of_int i)"
proof (cases "i < 0")
  case True
  then show ?thesis
    using js_Number_minus_digits [OF digits_of_all_digits digits_of_not_Nil, of "nat (- i)"]
    by (simp add: int_to_string_def nat_of_digits_of)
next
  case False
  then show ?thesis
    using js_Number_digits [OF digits_of_all_digits digits_of_not_Nil, of "nat i"]
    by (simp add: int_to_string_def nat_of_digits_of)
qed

lemma new_Date_of_int:
  assumes "\<bar>i\<bar> \<le> 8640000000000000"
  shows "new_Date (Fin (of_int i)) = Date i"
proof -
  have "\<bar>(of_int i :: rat)\<bar> = of_int \<bar>i\<bar>" by simp
  also have "\<dots> \<le> of_int 8640000000000000"
    using assms by (simp only: of_int_le_iff)
  finally have "\<not> \<bar>(of_int i :: rat)\<bar> > 8640000000000000" by simp
  then show ?thesis
    by (simp add: new_Date_def)
qed


section \<open>File names\<close>

lemma endsWith_append: "endsWith (xs @ t) t"
  by (simp add: endsWith_def)

lemma js_replace_past:
  assumes "c \<notin> set xs"
  shows "js_replace (c # pat) rep (xs @ ys) = xs @ js_replace (c # pat) rep ys"
  using assms by (induction xs) auto

lemma js_replace_suffix:
  assumes "CHR ''.'' \<notin> set xs"
  shows "js_replace ''.webm'' [] (xs @ ''.webm'') = xs"
  using js_replace_past [OF assms, of "''webm''" "[]" "''.webm''"]
  by simp

lemma js_split_whole: "sep \<notin> set xs \<Longrightarrow> js_split sep xs = [xs]"
  by (induction xs) auto

lemma js_split_at: "sep \<notin> set xs \<Longrightarrow> js_split sep (xs @ sep # ys) = xs # js_split sep ys"
  by (induction xs) auto

lemma js_split_first:
  "\<exists>rest. js_split sep (xs @ sep # ys) = takeWhile (\<lambda>c. c \<noteq> sep) xs # rest"
proof (induction xs)
  case Nil
  show ?case by simp
next
  case (Cons x xs)
  then show ?case by auto
qed

lemma int_to_string_chars:
  "c \<in> set (int_to_string i) \<Longrightarrow> is_digit c \<or> c = CHR ''-''"
  using digits_of_all_digits [of "nat i"] digits_of_all_digits [of "nat (- i)"]
  by (auto simp: int_to_string_def list_all_iff split: if_splits)

lemma int_to_string_plain:
  "CHR ''_'' \<notin> set (int_to_string i)" "CHR ''.'' \<notin> set (int_to_string i)"
  "CHR ''/'' \<notin> set (int_to_string i)" "CHR 0x00 \<notin> set (int_to_string i)"
  using int_to_string_chars [of _ i] is_digit_not_special(4,5,6,7) by fastforce+

lemma int_to_string_not_Nil: "int_to_string i \<noteq> []"
  by (simp add: int_to_string_def digits_of_not_Nil)

lemma length_int_to_string:
  assumes "\<bar>i\<bar> \<le> 8640000000000000"
  shows "length (int_to_string i) \<le> 17"
proof -
  have "nat \<bar>i\<bar> < 10 ^ 16"
    using assms by simp
  then have "length (digits_of (nat \<bar>i\<bar>)) \<le> 16"
    by (rule length_digits_of) simp
  then show ?thesis
    by (auto simp: int_to_string_def abs_if split: if_splits)
qed

text \<open>The descriptor of a name built as the storage builds it, for an id and a type tag
  without underscore or dot.\<close>

lemma describe_stored:
  assumes "CHR ''_'' \<notin> set sid" "CHR ''.'' \<notin> set sid" "sid \<noteq> []"
    and "CHR ''_'' \<notin> set t" "CHR ''.'' \<notin> set t" "t \<noteq> []"
    and "\<bar>i\<bar> \<le> 8640000000000000"
    and "name = sid @ ''_'' @ t @ ''_'' @ int_to_string i @ ''.webm''"
  shows "describe name =
           Inr \<lparr>student_id = sid, type' = t, filename = name, url = ''/voices/'' @ name,
                timestamp' = Some (iso_of_ms i)\<rparr>"
proof -
  let ?stem = "sid @ ''_'' @ t @ ''_'' @ int_to_string i"
  have "CHR ''.'' \<notin> set ?stem"
    using assms(2,5) int_to_string_plain(2) [of i] by simp
  then have "js_replace ''.webm'' [] (?stem @ ''.webm'') = ?stem"
    by (rule js_replace_suffix)
  then have r: "js_replace ''.webm'' [] name = ?stem"
    by (simp add: assms(8))
  have "js_split CHR ''_'' ?stem = sid # js_split CHR ''_'' (t @ ''_'' @ int_to_string i)"
    using js_split_at [OF assms(1), of "t @ ''_'' @ int_to_string i"] by simp
  also have "js_split CHR ''_'' (t @ ''_'' @ int_to_string i) = t # js_split CHR ''_'' (int_to_string i)"
    using js_split_at [OF assms(4), of "int_to_string i"] by simp
  also have "js_split CHR ''_'' (int_to_string i) = [int_to_string i]"
    using int_to_string_plain(1) by (rule js_split_whole)
  finally have p: "js_split CHR ''_'' ?stem = [sid, t, int_to_string i]" .
  have d: "sample_date [sid, t, int_to_string i] = Some (Date i)"
    using int_to_string_not_Nil [of i] new_Date_of_int [OF assms(7)]
    by (simp add: sample_date_def part_def js_Number_int_to_string)
  show ?thesis
    unfolding describe_def r p describe_parts_def d
    using assms(3,6) by (simp add: part_def or_default_def)
qed

section \<open>Directory and listing\<close>

lemma names_write_file:
  "map fst (write_file name b d) = (if name \<in> fst ` set d then map fst d else map fst d @ [name])"
  by (induction d) force+

lemma describe_all_append:
  "describe_all (xs @ ys) =
     (case describe_all xs of
        Inl err \<Rightarrow> Inl err
      | Inr ds \<Rightarrow> (case describe_all ys of Inl err \<Rightarrow> Inl err | Inr es \<Rightarrow> Inr (ds @ es)))"
  by (induction xs) (auto split: sum.splits)

lemma describe_all_member:
  assumes "describe_all fs = Inr ds" and "f \<in> set fs"
  shows "\<exists>d \<in> set ds. describe f = Inr d"
  using assms
proof (induction fs arbitrary: ds)
  case Nil
  then show ?case by simp
next
  case (Cons g fs)
  then show ?case
    by (auto split: sum.splits)
qed

lemma describe_filename: "describe f = Inr d \<Longrightarrow> filename d = f"
  by (auto simp: describe_def describe_parts_def split: option.splits sum.splits)

text \<open>After a file has been written, a directory that listed before lists again, with
  the descriptor of the written file among the entries.\<close>

lemma listing_after_write:
  assumes before: "voices_listing s = Inr ds0"
    and d: "describe name = Inr d" and w: "endsWith name ''.webm''"
  shows "\<exists>ds. voices_listing
               (s\<lparr>voices := Some (write_file name b (case voices s of None \<Rightarrow> [] | Some dir \<Rightarrow> dir))\<rparr>)
             = Inr ds \<and> d \<in> set ds"
proof -
  let ?dir = "case voices s of None \<Rightarrow> [] | Some dir \<Rightarrow> dir"
  let ?webm = "filter (\<lambda>f. endsWith f ''.webm'')"
  have l0: "describe_all (?webm (map fst ?dir)) = Inr ds0"
    using before by (cases "voices s") (simp_all add: voices_listing_def)
  show ?thesis
  proof (cases "name \<in> fst ` set ?dir")
    case True
    then have "name \<in> set (?webm (map fst ?dir))"
      using w by simp
    from describe_all_member [OF l0 this] d have "d \<in> set ds0"
      by auto
    with True l0 show ?thesis
      by (simp add: voices_listing_def names_write_file)
  next
    case False
    with l0 d w show ?thesis
      by (simp add: voices_listing_def names_write_file describe_all_append)
  qed
qed

section \<open>Uploads and the voice listing\<close>

lemma or_default_not_Nil: "d \<noteq> [] \<Longrightarrow> or_default v d \<noteq> []"
  by (simp add: or_default_def split: option.splits)

text \<open>A sufficient condition for a generated name to be plain, on the id and the type tag:
  neither has a path separator or a NUL byte, and together they are at most 200 long.\<close>

lemma storage_filename_plain:
  assumes "CHR ''/'' \<notin> set sid" "CHR 0x00 \<notin> set sid" "CHR ''/'' \<notin> set t" "CHR 0x00 \<notin> set t"
    and "length sid + length t \<le> 200" and "\<bar>i\<bar> \<le> 8640000000000000"
  shows "plain_name (sid @ ''_'' @ t @ ''_'' @ int_to_string i @ ''.webm'')"
  using assms int_to_string_plain(3,4) [of i] length_int_to_string [of i]
  by (simp add: plain_name_def)

lemma voice_route_stores:
  assumes "audio req = Some b" and "disk_ok e" and "plain_name (storage_filename e req)"
  shows "voice_route msg e req s =
           Some (s\<lparr>voices := Some (write_file (storage_filename e req) b
                                      (case voices s of None \<Rightarrow> [] | Some d \<Rightarrow> d))\<rparr>,
                 Responded 200 (JObj [(''ok'', JBool True), (''message'', JStr msg),
                                      (''file'', JStr (storage_filename e req))]))"
  using assms by (simp add: voice_route_def upload_single_def)

lemma started_server_voices: "voices_listing started_server = Inr []"
  by (simp add: example_defs ledger_eval voices_listing_def)

lemma describe_parts_fields:
  assumes "describe_parts f (p0 # p1 # rest) = Inr d"
  shows "student_id d = or_default (Some p0) ''unknown'' \<and> type' d = or_default (Some p1) ''unknown''"
  using assms
  by (auto simp: describe_parts_def part_def split: option.splits sum.splits)

lemma describe_underscored_id:
  assumes a: "CHR ''_'' \<notin> set a" and dots: "CHR ''.'' \<notin> set a" "CHR ''.'' \<notin> set b"
  shows "\<exists>rest. js_split CHR ''_'' (js_replace ''.webm'' [] ((a @ ''_'' @ b) @ ''_'' @ tail))
           = a # takeWhile (\<lambda>c. c \<noteq> CHR ''_'') b # rest"
proof -
  have "CHR ''.'' \<notin> set (a @ ''_'' @ b @ ''_'')"
    using dots by simp
  from js_replace_past [OF this, of "''webm''" "[]" tail]
  have "js_replace ''.webm'' [] ((a @ ''_'' @ b) @ ''_'' @ tail)
      = a @ CHR ''_'' # (b @ CHR ''_'' # js_replace ''.webm'' [] tail)"
    by simp
  moreover have "js_split CHR ''_'' (a @ CHR ''_'' # (b @ CHR ''_'' # js_replace ''.webm'' [] tail))
      = a # js_split CHR ''_'' (b @ CHR ''_'' # js_replace ''.webm'' [] tail)"
    using a by (rule js_split_at)
  moreover obtain rest where "js_split CHR ''_'' (b @ CHR ''_'' # js_replace ''.webm'' [] tail)
      = takeWhile (\<lambda>c. c \<noteq> CHR ''_'') b # rest"
    using js_split_first [of "CHR ''_''" b "js_replace ''.webm'' [] tail"] by blast
  ultimately show ?thesis by simp
qed

text \<open>
  Claim C3. The claim asks that a file whose third segment is not a number be listed with a
  null timestamp. The handler guards with \<^verbatim>\<open>ts ? ts.toISOString() : null\<close>, but for such
  a segment \<^verbatim>\<open>ts\<close> is an Invalid Date object, which is truthy, and \<^verbatim>\<open>toISOString\<close> throws
  a RangeError: the whole listing fails. A directory holding \<^verbatim>\<open>S42_enroll_abc.webm\<close> is
  enough; so is one upload through the enroll route with the student id \<^verbatim>\<open>john_doe\<close>,
  whose third segment is the type tag.
\<close>

theorem listing_throws_on_non_numeric_segment:
  "voices_listing (server_with_files [''S42_enroll_abc.webm'']) = Inl RangeError
   \<and> voice_enroll example_env (enroll_upload ''john_doe'') started_server =
       Some (server_with_files [''john_doe_check_1700000000000.webm''],
             Responded 200 (JObj [(''ok'', JBool True),
                                  (''message'', JStr ''Voice enrolled and saved''),
                                  (''file'', JStr ''john_doe_check_1700000000000.webm'')]))
   \<and> voices_listing (server_with_files [''john_doe_check_1700000000000.webm'']) = Inl RangeError"
proof -
  have "voices_listing (server_with_files [''S42_enroll_abc.webm'']) = Inl RangeError"
    by (simp add: voice_eval upload_defs number_eval)
  moreover have "voice_enroll example_env (enroll_upload ''john_doe'') started_server =
       Some (server_with_files [''john_doe_check_1700000000000.webm''],
             Responded 200 (JObj [(''ok'', JBool True),
                                  (''message'', JStr ''Voice enrolled and saved''),
                                  (''file'', JStr ''john_doe_check_1700000000000.webm'')]))"
    by (simp add: voice_eval upload_defs example_defs ledger_eval clock_example)
  moreover have "voices_listing (server_with_files [''john_doe_check_1700000000000.webm'']) = Inl RangeError"
    by (simp add: voice_eval upload_defs number_eval)
  ultimately show ?thesis by simp
qed

text \<open>
  Claim C4, as amended. The upload routes fix no type: the type segment of the stored name
  is the request's \<^verbatim>\<open>type\<close> form field, or \<^verbatim>\<open>check\<close> when that field is absent or empty.
  Take a request to the enroll route with an audio file whose form fields precede the file
  part and give the student id \<^verbatim>\<open>S42\<close>; let \<open>t\<close> be its type field, or \<^verbatim>\<open>check\<close> when
  it has none. Provided the generated name \<^verbatim>\<open>S42_<t>_<digits>.webm\<close> is a plain file name
  (no path separator, no NUL byte, at most 255 bytes), the write succeeds and the clock is
  a valid time at or after the epoch, the response's \<^verbatim>\<open>file\<close> is that name, whatever \<open>t\<close>
  is; it is \<^verbatim>\<open>S42_enroll_<digits>.webm\<close> only when the client sends the type
  \<^verbatim>\<open>enroll\<close>. If moreover \<open>t\<close> has no underscore and no dot and the directory listed
  without error before, the listing afterwards succeeds and holds the descriptor with
  student id \<^verbatim>\<open>S42\<close> and type \<open>t\<close> for that name.
\<close>

theorem enroll_file_named_by_type_field:
  assumes sid: "map_of (form req) ''student_id'' = Some ''S42''"
    and ty: "t = or_default (map_of (form req) ''type'') ''check''"
    and au: "audio req = Some b" and disk: "disk_ok e"
    and clock: "0 \<le> now e" "now e \<le> 8640000000000000"
    and name: "name = ''S42_'' @ t @ ''_'' @ int_to_string (now e) @ ''.webm''"
    and plain: "plain_name name"
  shows "list_all is_digit (int_to_string (now e))
       \<and> (\<exists>s'.
             voice_enroll e req s =
               Some (s', Responded 200 (JObj [(''ok'', JBool True),
                                              (''message'', JStr ''Voice enrolled and saved''),
                                              (''file'', JStr name)]))
           \<and> (CHR ''_'' \<notin> set t \<and> CHR ''.'' \<notin> set t \<and> voices_listing s = Inr ds0 \<longrightarrow>
                (\<exists>ds. voices_listing s' = Inr ds
                  \<and> \<lparr>student_id = ''S42'', type' = t, filename = name, url = ''/voices/'' @ name,
                      timestamp' = Some (iso_of_ms (now e))\<rparr> \<in> set ds)))"
proof -
  let ?s' = "s\<lparr>voices := Some (write_file name b (case voices s of None \<Rightarrow> [] | Some d \<Rightarrow> d))\<rparr>"
  have abs: "\<bar>now e\<bar> \<le> 8640000000000000"
    using clock by simp
  have digits: "list_all is_digit (int_to_string (now e))"
    using clock(1) digits_of_all_digits [of "nat (now e)"] by (simp add: int_to_string_def)
  have sf: "storage_filename e req = name"
    using sid ty name by (simp add: storage_filename_def or_default_def)
  have stored: "voice_enroll e req s =
      Some (?s', Responded 200 (JObj [(''ok'', JBool True),
                                      (''message'', JStr ''Voice enrolled and saved''),
                                      (''file'', JStr name)]))"
    using voice_route_stores [OF au disk, of "''Voice enrolled and saved''" s] plain
    by (simp add: voice_enroll_def sf)
  have listed: "\<exists>ds. voices_listing ?s' = Inr ds
        \<and> \<lparr>student_id = ''S42'', type' = t, filename = name, url = ''/voices/'' @ name,
            timestamp' = Some (iso_of_ms (now e))\<rparr> \<in> set ds"
    if tag: "CHR ''_'' \<notin> set t" "CHR ''.'' \<notin> set t" and before: "voices_listing s = Inr ds0"
  proof -
    have n: "name = ''S42'' @ ''_'' @ t @ ''_'' @ int_to_string (now e) @ ''.webm''"
      using name by simp
    have t: "t \<noteq> []"
      unfolding ty by (rule or_default_not_Nil) simp
    have d: "describe name =
        Inr \<lparr>student_id = ''S42'', type' = t, filename = name, url = ''/voices/'' @ name,
             timestamp' = Some (iso_of_ms (now e))\<rparr>"
      using tag t abs n by (intro describe_stored) auto
    have w: "endsWith name ''.webm''"
      using endsWith_append [of "''S42_'' @ t @ ''_'' @ int_to_string (now e)" "''.webm''"] name
      by simp
    from listing_after_write [OF before d w, of b] show ?thesis .
  qed
  from digits stored listed show ?thesis
    by blast
qed

theorem enroll_file_named_by_type_field_witness:
  "plain_name ''S42_enroll_1700000000000.webm''
   \<and> voice_enroll example_env (typed_upload ''S42'' ''enroll'') started_server =
       Some (server_with_files [''S42_enroll_1700000000000.webm''],
             Responded 200 (JObj [(''ok'', JBool True),
                                  (''message'', JStr ''Voice enrolled and saved''),
                                  (''file'', JStr ''S42_enroll_1700000000000.webm'')]))
   \<and> list_all is_digit ''1700000000000''
   \<and> voices_listing (server_with_files [''S42_enroll_1700000000000.webm'']) =
       Inr [\<lparr>student_id = ''S42'', type' = ''enroll'',
             filename = ''S42_enroll_1700000000000.webm'',
             url = ''/voices/S42_enroll_1700000000000.webm'',
             timestamp' = Some ''2023-11-14T22:13:20.000Z''\<rparr>]
   \<and> plain_name ''S42_verify_1700000000000.webm''
   \<and> voice_enroll example_env (typed_upload ''S42'' ''verify'') started_server =
       Some (server_with_files [''S42_verify_1700000000000.webm''],
             Responded 200 (JObj [(''ok'', JBool True),
                                  (''message'', JStr ''Voice enrolled and saved''),
                                  (''file'', JStr ''S42_verify_1700000000000.webm'')]))"
proof -
  let ?req = "typed_upload ''S42'' ''enroll''"
  let ?req2 = "typed_upload ''S42'' ''verify''"
  have n: "now example_env = 1700000000000"
    by (simp add: example_env_def)
  have sid: "map_of (form ?req) ''student_id'' = Some ''S42''"
    by (simp add: upload_defs)
  have ty: "''enroll'' = or_default (map_of (form ?req) ''type'') ''check''"
    by (simp add: upload_defs or_default_def)
  have au: "audio ?req = Some [82, 73, 70, 70]"
    by (simp add: upload_defs)
  have sid2: "map_of (form ?req2) ''student_id'' = Some ''S42''"
    by (simp add: upload_defs)
  have ty2: "''verify'' = or_default (map_of (form ?req2) ''type'') ''check''"
    by (simp add: upload_defs or_default_def)
  have au2: "audio ?req2 = Some [82, 73, 70, 70]"
    by (simp add: upload_defs)
  have disk: "disk_ok example_env"
    by (simp add: example_env_def)
  have clock: "0 \<le> now example_env" "now example_env \<le> 8640000000000000"
    by (simp_all add: n)
  have name: "''S42_enroll_1700000000000.webm''
      = ''S42_'' @ ''enroll'' @ ''_'' @ int_to_string (now example_env) @ ''.webm''"
    by (simp add: n clock_example)
  have name2: "''S42_verify_1700000000000.webm''
      = ''S42_'' @ ''verify'' @ ''_'' @ int_to_string (now example_env) @ ''.webm''"
    by (simp add: n clock_example)
  have plain: "plain_name ''S42_enroll_1700000000000.webm''"
    by (simp add: plain_name_def)
  have plain2: "plain_name ''S42_verify_1700000000000.webm''"
    by (simp add: plain_name_def)
  have st: "voice_enroll example_env ?req started_server =
     Some (server_with_files [''S42_enroll_1700000000000.webm''],
           Responded 200 (JObj [(''ok'', JBool True),
                                (''message'', JStr ''Voice enrolled and saved''),
                                (''file'', JStr ''S42_enroll_1700000000000.webm'')]))"
    by (simp add: voice_eval upload_defs example_defs ledger_eval clock_example)
  have tag: "CHR ''_'' \<notin> set ''enroll''" "CHR ''.'' \<notin> set ''enroll''"
    by simp_all
  from enroll_file_named_by_type_field
    [OF sid ty au disk clock name plain, of started_server "[]"]
  obtain ds where "list_all is_digit (int_to_string (now example_env))"
    and l: "voices_listing (server_with_files [''S42_enroll_1700000000000.webm'']) = Inr ds"
    and m: "\<lparr>student_id = ''S42'', type' = ''enroll'',
             filename = ''S42_enroll_1700000000000.webm'',
             url = ''/voices/'' @ ''S42_enroll_1700000000000.webm'',
             timestamp' = Some (iso_of_ms (now example_env))\<rparr> \<in> set ds"
    using tag started_server_voices by (auto simp: st)
  from enroll_file_named_by_type_field
    [OF sid2 ty2 au2 disk clock name2 plain2, of started_server "[]"]
  obtain s2 where st2: "voice_enroll example_env ?req2 started_server =
     Some (s2, Responded 200 (JObj [(''ok'', JBool True),
                                (''message'', JStr ''Voice enrolled and saved''),
                                (''file'', JStr ''S42_verify_1700000000000.webm'')]))"
    by blast
  have "voice_enroll example_env ?req2 started_server =
     Some (server_with_files [''S42_verify_1700000000000.webm''],
           Responded 200 (JObj [(''ok'', JBool True),
                                (''message'', JStr ''Voice enrolled and saved''),
                                (''file'', JStr ''S42_verify_1700000000000.webm'')]))"
    by (simp add: voice_eval upload_defs example_defs ledger_eval clock_example)
  moreover have "voices_listing (server_with_files [''S42_enroll_1700000000000.webm'']) =
       Inr [\<lparr>student_id = ''S42'', type' = ''enroll'',
             filename = ''S42_enroll_1700000000000.webm'',
             url = ''/voices/S42_enroll_1700000000000.webm'',
             timestamp' = Some ''2023-11-14T22:13:20.000Z''\<rparr>]"
    by (simp add: voice_eval upload_defs number_eval iso_example)
  ultimately show ?thesis
    using st plain plain2 by (simp add: is_digit_def)
qed

text \<open>Claim C4 as stated fails: a request to the enroll route with student id \<^verbatim>\<open>S42\<close> and
  no \<^verbatim>\<open>type\<close> field is stored as \<^verbatim>\<open>S42_check_<digits>.webm\<close> and listed with type
  \<^verbatim>\<open>check\<close>.\<close>

theorem enroll_without_type_counterexample:
  "voice_enroll example_env (enroll_upload ''S42'') started_server =
     Some (server_with_files [''S42_check_1700000000000.webm''],
           Responded 200 (JObj [(''ok'', JBool True),
                                (''message'', JStr ''Voice enrolled and saved''),
                                (''file'', JStr ''S42_check_1700000000000.webm'')]))
   \<and> take 11 ''S42_check_1700000000000.webm'' \<noteq> ''S42_enroll_''
   \<and> voices_listing (server_with_files [''S42_check_1700000000000.webm'']) =
       Inr [\<lparr>student_id = ''S42'', type' = ''check'',
             filename = ''S42_check_1700000000000.webm'',
             url = ''/voices/S42_check_1700000000000.webm'',
             timestamp' = Some ''2023-11-14T22:13:20.000Z''\<rparr>]"
proof -
  have "voice_enroll example_env (enroll_upload ''S42'') started_server =
     Some (server_with_files [''S42_check_1700000000000.webm''],
           Responded 200 (JObj [(''ok'', JBool True),
                                (''message'', JStr ''Voice enrolled and saved''),
                                (''file'', JStr ''S42_check_1700000000000.webm'')]))"
    by (simp add: voice_eval upload_defs example_defs ledger_eval clock_example)
  moreover have "voices_listing (server_with_files [''S42_check_1700000000000.webm'']) =
       Inr [\<lparr>student_id = ''S42'', type' = ''check'',
             filename = ''S42_check_1700000000000.webm'',
             url = ''/voices/S42_check_1700000000000.webm'',
             timestamp' = Some ''2023-11-14T22:13:20.000Z''\<rparr>]"
    by (simp add: voice_eval upload_defs number_eval iso_example)
  ultimately show ?thesis by simp
qed

text \<open>
  Claim C8, as amended. An upload to either route without an audio file part fails and
  stores nothing: the middleware leaves \<^verbatim>\<open>req.file\<close> undefined, the handler throws a
  TypeError on reading \<^verbatim>\<open>req.file.filename\<close>, and the state is unchanged. No check answers
  with a client error; the thrown error reaches the framework's default error handler,
  whose status is 500.
\<close>

theorem upload_without_audio_throws:
  assumes "audio req = None"
  shows "voice_enroll e req s = Some (s, Threw TypeError)
       \<and> voice_check e req s = Some (s, Threw TypeError)
       \<and> http_status (Threw TypeError) = 500"
  using assms by (simp add: voice_enroll_def voice_check_def voice_route_def upload_single_def)

theorem upload_without_audio_throws_witness:
  "audio empty_upload = None
   \<and> voice_enroll example_env empty_upload started_server = Some (started_server, Threw TypeError)
   \<and> voice_check example_env empty_upload started_server = Some (started_server, Threw TypeError)"
  using upload_without_audio_throws [of empty_upload example_env started_server]
  by (simp add: empty_upload_def)

text \<open>Claim C8 as stated fails: the failure is not a client-error response; the status of
  the thrown TypeError is 500, outside 400..499.\<close>

theorem upload_without_audio_counterexample:
  "voice_enroll example_env empty_upload (server_with_files []) =
     Some (server_with_files [], Threw TypeError)
   \<and> \<not> (400 \<le> http_status (Threw TypeError) \<and> http_status (Threw TypeError) < 500)"
  by (simp add: voice_eval upload_defs)

text \<open>
  Claim C10, as amended. The listing splits a name at every underscore and reads the first
  three segments. For a stored sample whose student id contains an underscore (and no
  dot), whenever the listing returns, the sample's descriptor has as \<^verbatim>\<open>student_id\<close> the
  id cut at its first underscore, and as \<^verbatim>\<open>type\<close> the id's second segment, that is the
  text between its first and second underscore (the whole remainder only when the id has
  one underscore); each is \<^verbatim>\<open>unknown\<close> when empty. The id cannot be recovered from the
  listing.
\<close>

theorem listing_cuts_id_at_underscores:
  assumes sid: "map_of (form req) ''student_id'' = Some (a @ ''_'' @ b)"
    and a: "CHR ''_'' \<notin> set a" and dots: "CHR ''.'' \<notin> set a" "CHR ''.'' \<notin> set b"
    and dir: "voices s = Some dir" "storage_filename e req \<in> fst ` set dir"
    and listed: "voices_listing s = Inr ds"
  shows "\<exists>d \<in> set ds.
           filename d = storage_filename e req
         \<and> student_id d = or_default (Some a) ''unknown''
         \<and> type' d = or_default (Some (takeWhile (\<lambda>c. c \<noteq> CHR ''_'') b)) ''unknown''"
proof -
  let ?name = "storage_filename e req"
  let ?tail = "or_default (map_of (form req) ''type'') ''check'' @ ''_'' @ int_to_string (now e) @ ''.webm''"
  have n: "?name = (a @ ''_'' @ b) @ ''_'' @ ?tail"
    using sid by (simp add: storage_filename_def or_default_def)
  have "endsWith ?name ''.webm''"
    using endsWith_append [of "(a @ ''_'' @ b) @ ''_'' @ or_default (map_of (form req) ''type'') ''check''
      @ ''_'' @ int_to_string (now e)" "''.webm''"]
    by (simp add: n)
  with dir(2) have "?name \<in> set (filter (\<lambda>f. endsWith f ''.webm'') (map fst dir))"
    by simp
  moreover have "describe_all (filter (\<lambda>f. endsWith f ''.webm'') (map fst dir)) = Inr ds"
    using listed dir(1) by (simp add: voices_listing_def)
  ultimately obtain d where d: "d \<in> set ds" "describe ?name = Inr d"
    using describe_all_member by blast
  from describe_underscored_id [OF a dots, of ?tail]
  obtain rest where "js_split CHR ''_'' (js_replace ''.webm'' [] ?name)
      = a # takeWhile (\<lambda>c. c \<noteq> CHR ''_'') b # rest"
    unfolding n by blast
  with d(2) have "describe_parts ?name (a # takeWhile (\<lambda>c. c \<noteq> CHR ''_'') b # rest) = Inr d"
    by (simp add: describe_def)
  from describe_parts_fields [OF this] d describe_filename [OF d(2)] show ?thesis
    by blast
qed

theorem listing_cuts_id_at_underscores_witness:
  "map_of (form (enroll_upload ''mary_ann_'')) ''student_id'' = Some (''mary'' @ ''_'' @ ''ann_'')
   \<and> storage_filename example_env (enroll_upload ''mary_ann_'') = ''mary_ann__check_1700000000000.webm''
   \<and> voices_listing (server_with_files [''mary_ann__check_1700000000000.webm'']) =
       Inr [\<lparr>student_id = ''mary'', type' = ''ann'',
             filename = ''mary_ann__check_1700000000000.webm'',
             url = ''/voices/mary_ann__check_1700000000000.webm'',
             timestamp' = None\<rparr>]"
proof -
  let ?req = "enroll_upload ''mary_ann_''"
  let ?s = "server_with_files [''mary_ann__check_1700000000000.webm'']"
  have sid: "map_of (form ?req) ''student_id'' = Some (''mary'' @ ''_'' @ ''ann_'')"
    by (simp add: upload_defs)
  have sf: "storage_filename example_env ?req = ''mary_ann__check_1700000000000.webm''"
    by (simp add: voice_eval upload_defs example_env_def clock_example)
  have dir1: "voices ?s = Some [(''mary_ann__check_1700000000000.webm'', [82, 73, 70, 70])]"
    by (simp add: upload_defs)
  have dir2: "storage_filename example_env ?req
      \<in> fst ` set [(''mary_ann__check_1700000000000.webm'', [82, 73, 70, 70])]"
    by (simp add: sf)
  have l: "voices_listing ?s =
       Inr [\<lparr>student_id = ''mary'', type' = ''ann'',
             filename = ''mary_ann__check_1700000000000.webm'',
             url = ''/voices/mary_ann__check_1700000000000.webm'',
             timestamp' = None\<rparr>]"
    by (simp add: voice_eval upload_defs number_eval)
  from listing_cuts_id_at_underscores [OF sid _ _ _ dir1 dir2 l]
  have "\<exists>d \<in> set [\<lparr>student_id = ''mary'', type' = ''ann'',
             filename = ''mary_ann__check_1700000000000.webm'',
             url = ''/voices/mary_ann__check_1700000000000.webm'',
             timestamp' = None\<rparr>]. student_id d = ''mary'' \<and> type' d = ''ann''"
    by (simp add: or_default_def)
  with sid sf l show ?thesis by simp
qed

text \<open>Claim C10 as stated fails: for the student id \<^verbatim>\<open>ann_lee_7\<close> the listing reports the
  type \<^verbatim>\<open>lee\<close>, not the remainder \<^verbatim>\<open>lee_7\<close> of the id (whose last segment is read as
  the timestamp).\<close>

theorem type_is_not_the_rest_of_the_id_counterexample:
  "voice_enroll example_env (enroll_upload ''ann_lee_7'') started_server =
     Some (server_with_files [''ann_lee_7_check_1700000000000.webm''],
           Responded 200 (JObj [(''ok'', JBool True),
                                (''message'', JStr ''Voice enrolled and saved''),
                                (''file'', JStr ''ann_lee_7_check_1700000000000.webm'')]))
   \<and> voices_listing (server_with_files [''ann_lee_7_check_1700000000000.webm'']) =
       Inr [\<lparr>student_id = ''ann'', type' = ''lee'',
             filename = ''ann_lee_7_check_1700000000000.webm'',
             url = ''/voices/ann_lee_7_check_1700000000000.webm'',
             timestamp' = Some ''1970-01-01T00:00:00.007Z''\<rparr>]
   \<and> ''lee'' \<noteq> ''lee_7''"
proof -
  have "voice_enroll example_env (enroll_upload ''ann_lee_7'') started_server =
     Some (server_with_files [''ann_lee_7_check_1700000000000.webm''],
           Responded 200 (JObj [(''ok'', JBool True),
                                (''message'', JStr ''Voice enrolled and saved''),
                                (''file'', JStr ''ann_lee_7_check_1700000000000.webm'')]))"
    by (simp add: voice_eval upload_defs example_defs ledger_eval clock_example)
  moreover have "iso_of_ms 7 = ''1970-01-01T00:00:00.007Z''"
    by (simp add: date_eval)
  then have "voices_listing (server_with_files [''ann_lee_7_check_1700000000000.webm'']) =
       Inr [\<lparr>student_id = ''ann'', type' = ''lee'',
             filename = ''ann_lee_7_check_1700000000000.webm'',
             url = ''/voices/ann_lee_7_check_1700000000000.webm'',
             timestamp' = Some ''1970-01-01T00:00:00.007Z''\<rparr>]"
    by (simp add: voice_eval upload_defs number_eval)
  ultimately show ?thesis by simp
qed

section \<open>Further properties\<close>

text \<open>The condition \<open>ledger_ready\<close> of the ledger theorems is what \<^verbatim>\<open>initExcel\<close>
  establishes on fresh storage and what the ingest handler keeps, whatever the request and
  its outcome.\<close>

lemma initExcel_fresh_storage:
  assumes "excelFile s = None"
  shows "ledger_ready (fst (initExcel e s))
       \<and> attendance (fst (initExcel e s)) = Inr []
       \<and> (disk_ok e \<longrightarrow> snd (initExcel e s) = None
             \<and> excelFile (fst (initExcel e s)) = Some (workbook (fst (initExcel e s))))"
  using assms by (simp add: ledger_eval)

lemma device_event_keeps_ledger_ready:
  assumes "ledger_ready s"
  shows "ledger_ready (fst (device_event cfg e req s))"
proof -
  from assms obtain sheet where sh: "workbook s ''Attendance'' = Some sheet"
    and keys: "map key (columns sheet) = [''timestamp'', ''device_id'', ''token'', ''pin'', ''method'']"
    by (rule ledger_readyE)
  show ?thesis
    using assms sh append_and_write_ready [OF sh keys, of e _ ]
    by (auto simp: device_event_def split: sum.splits)
qed

text \<open>The key check compares the header with the configured key by \<^verbatim>\<open>!==\<close>. When the
  variable is not set, a request without the header passes it: the answer is not the
  401.\<close>

lemma unset_key_passes_missing_header:
  assumes "DEVICE_API_KEY cfg = None" and "x_device_key req = None"
  shows "snd (device_event cfg e req s) \<noteq> Responded 401 b"
  using assms
  by (auto simp: device_event_def append_and_write_def split: sum.splits option.splits)

text \<open>The part of the PIN default that holds: an event without \<^verbatim>\<open>extras\<close> (or with a
  falsy one) gets the empty string.\<close>

lemma pin_is_empty_without_extras:
  assumes "member ev ''extras'' = Inr x" and "\<not> truthy x"
  shows "event_pin ev = Inr (JStr [])"
  using assms by (simp add: event_pin_def and_then_def)

text \<open>The part of the timestamp policy that holds: a name with fewer than three segments,
  or with an empty third one, is described with a null timestamp. A missing directory
  lists as empty.\<close>

lemma null_timestamp_without_third_segment:
  assumes "part (js_split CHR ''_'' (js_replace ''.webm'' [] f)) 2 = None
         \<or> part (js_split CHR ''_'' (js_replace ''.webm'' [] f)) 2 = Some []"
  shows "\<exists>sid t. describe f =
           Inr \<lparr>student_id = sid, type' = t, filename = f, url = ''/voices/'' @ f,
                timestamp' = None\<rparr>"
  using assms by (auto simp: describe_def describe_parts_def sample_date_def)

lemma missing_directory_lists_nothing:
  "voices s = None \<Longrightarrow> voices_listing s = Inr []"
  by (simp add: voices_listing_def)

end
